theory Spec2Isabelle
  imports Complex_Main
begin

section \<open>JavaScript numbers\<close>

text \<open>
  Every quantity of the program is a JavaScript \<open>number\<close>. The model keeps the values
  that decide the program's guards: \<open>NaN\<close>, the two infinities and the two zeros
  (\<open>Fin 0\<close> is \<open>+0\<close>, \<open>NZero\<close> is \<open>-0\<close>). A finite value is a real. An operator
  computes the exact real result and brings it into the range of the 64-bit
  format: a result of magnitude \<open>2^1024 - 2^970\<close> or more overflows to an infinity,
  and a non-zero result of magnitude \<open>2^-1075\<close> or less underflows to the zero of
  its sign. Within that range a result is kept as it is: the rounding of the
  significand to 53 bits is not modelled. Division by zero, \<open>0 / 0\<close>, comparisons
  with \<open>NaN\<close> and the results of \<open>Math.max\<close>, \<open>Math.pow\<close> and friends on the
  special values follow ECMAScript.
\<close>

datatype number = NaN | PInf | NInf | NZero | Fin real

fun isNaN :: "number \<Rightarrow> bool" where
  "isNaN NaN = True"
| "isNaN _ = False"

fun isInf :: "number \<Rightarrow> bool" where
  "isInf PInf = True"
| "isInf NInf = True"
| "isInf _ = False"

fun isZero :: "number \<Rightarrow> bool" where
  "isZero NZero = True"
| "isZero (Fin r) = (r = 0)"
| "isZero _ = False"

definition isFinite :: "number \<Rightarrow> bool" where
  "isFinite x = (\<not> isNaN x \<and> \<not> isInf x)"

text \<open>The sign bit, and the real value of a finite number.\<close>

fun signbit :: "number \<Rightarrow> bool" where
  "signbit NInf = True"
| "signbit NZero = True"
| "signbit (Fin r) = (r < 0)"
| "signbit _ = False"

fun realval :: "number \<Rightarrow> real" where
  "realval (Fin r) = r"
| "realval _ = 0"

definition signedZero :: "bool \<Rightarrow> number" where
  "signedZero s = (if s then NZero else Fin 0)"

definition infinity :: "bool \<Rightarrow> number" where
  "infinity s = (if s then NInf else PInf)"

text \<open>
  The range of the format. \<open>rounded r\<close> is the number that the real result \<open>r\<close>
  becomes; \<open>finiteResult s r\<close> also gives an exact zero the sign \<open>s\<close> of the
  operation. A finite number of the format is \<open>representable\<close>: its magnitude is
  below the overflow bound.
\<close>

definition overflowBound :: real where
  "overflowBound = 2 ^ 1024 - 2 ^ 970"

definition underflowBound :: real where
  "underflowBound = 1 / 2 ^ 1075"

definition rounded :: "real \<Rightarrow> number" where
  "rounded r =
     (if overflowBound \<le> \<bar>r\<bar> then infinity (r < 0)
      else if \<bar>r\<bar> \<le> underflowBound then signedZero (r < 0)
      else Fin r)"

definition finiteResult :: "bool \<Rightarrow> real \<Rightarrow> number" where
  "finiteResult s r = (if r = 0 then signedZero s else rounded r)"

definition representable :: "number \<Rightarrow> bool" where
  "representable x = (isFinite x \<and> \<bar>realval x\<bar> < overflowBound)"

text \<open>
  The operators \<open>+\<close>, \<open>*\<close>, \<open>/\<close>, \<open><\<close> and \<open><=\<close> of the language (\<open>x > y\<close> is
  \<open>y < x\<close>). A comparison with \<open>NaN\<close> is false, so \<open>x \<le> y\<close> is not the negation
  of \<open>y < x\<close>. A sum that is exactly zero is \<open>-0\<close> only if both terms are.
\<close>

instantiation number :: "{plus, times, inverse, ord}"
begin

definition plus_number :: "number \<Rightarrow> number \<Rightarrow> number" where
  "plus_number x y =
     (if isNaN x \<or> isNaN y then NaN
      else if isInf x then (if isInf y \<and> y \<noteq> x then NaN else x)
      else if isInf y then y
      else finiteResult (x = NZero \<and> y = NZero) (realval x + realval y))"

definition times_number :: "number \<Rightarrow> number \<Rightarrow> number" where
  "times_number x y =
     (if isNaN x \<or> isNaN y then NaN
      else if (isInf x \<and> isZero y) \<or> (isZero x \<and> isInf y) then NaN
      else if isInf x \<or> isInf y then infinity (signbit x \<noteq> signbit y)
      else finiteResult (signbit x \<noteq> signbit y) (realval x * realval y))"

definition divide_number :: "number \<Rightarrow> number \<Rightarrow> number" where
  "divide_number x y =
     (if isNaN x \<or> isNaN y then NaN
      else if (isInf x \<and> isInf y) \<or> (isZero x \<and> isZero y) then NaN
      else if isInf x \<or> isZero y then infinity (signbit x \<noteq> signbit y)
      else if isInf y then signedZero (signbit x \<noteq> signbit y)
      else finiteResult (signbit x \<noteq> signbit y) (realval x / realval y))"

definition inverse_number :: "number \<Rightarrow> number" where
  "inverse_number x =
     (if isNaN x then NaN
      else if isZero x then infinity (signbit x)
      else if isInf x then signedZero (signbit x)
      else finiteResult (signbit x) (inverse (realval x)))"

definition less_number :: "number \<Rightarrow> number \<Rightarrow> bool" where
  "less_number x y =
     (\<not> isNaN x \<and> \<not> isNaN y \<and>
      ((x = NInf \<and> y \<noteq> NInf) \<or> (y = PInf \<and> x \<noteq> PInf) \<or>
       (\<not> isInf x \<and> \<not> isInf y \<and> realval x < realval y)))"

definition less_eq_number :: "number \<Rightarrow> number \<Rightarrow> bool" where
  "less_eq_number x y =
     (\<not> isNaN x \<and> \<not> isNaN y \<and>
      (x = NInf \<or> y = PInf \<or>
       (\<not> isInf x \<and> \<not> isInf y \<and> realval x \<le> realval y)))"

instance ..

end

subsection \<open>The \<open>Math\<close> functions the program calls\<close>

definition Math_PI :: number where
  "Math_PI = Fin pi"

text \<open>\<open>Math.max\<close> and \<open>Math.min\<close>: \<open>NaN\<close> if an argument is; \<open>+0\<close> is larger than \<open>-0\<close>.\<close>

definition Math_max :: "number \<Rightarrow> number \<Rightarrow> number" where
  "Math_max x y =
     (if isNaN x \<or> isNaN y then NaN
      else if x < y then y
      else if y < x then x
      else if x = NZero then y
      else x)"

definition Math_min :: "number \<Rightarrow> number \<Rightarrow> number" where
  "Math_min x y =
     (if isNaN x \<or> isNaN y then NaN
      else if x < y then x
      else if y < x then y
      else if x = NZero then x
      else y)"

fun Math_abs :: "number \<Rightarrow> number" where
  "Math_abs NaN = NaN"
| "Math_abs PInf = PInf"
| "Math_abs NInf = PInf"
| "Math_abs NZero = Fin 0"
| "Math_abs (Fin r) = Fin \<bar>r\<bar>"

text \<open>\<open>Math.ceil\<close> of a value in \<open>(-1, 0)\<close> is \<open>-0\<close>.\<close>

fun Math_ceil :: "number \<Rightarrow> number" where
  "Math_ceil (Fin r) = (if \<lceil>r\<rceil> = 0 \<and> r < 0 then NZero else Fin (of_int \<lceil>r\<rceil>))"
| "Math_ceil x = x"

fun Math_floor :: "number \<Rightarrow> number" where
  "Math_floor (Fin r) = Fin (of_int \<lfloor>r\<rfloor>)"
| "Math_floor x = x"

definition Math_sin :: "number \<Rightarrow> number" where
  "Math_sin x =
     (if isNaN x \<or> isInf x then NaN
      else if x = NZero then NZero
      else Fin (sin (realval x)))"

definition isInteger :: "number \<Rightarrow> bool" where
  "isInteger y = (isFinite y \<and> of_int \<lfloor>realval y\<rfloor> = realval y)"

definition isOddInteger :: "number \<Rightarrow> bool" where
  "isOddInteger y = (isInteger y \<and> odd \<lfloor>realval y\<rfloor>)"

text \<open>
  \<open>Math.pow\<close>, case by case as ECMAScript's \<open>Number::exponentiate\<close> lists them;
  the last three cases are the finite non-zero ones, where a negative base has a
  real power only for an integer exponent.
\<close>

definition Math_pow :: "number \<Rightarrow> number \<Rightarrow> number" where
  "Math_pow b e =
     (if isNaN e then NaN
      else if isZero e then Fin 1
      else if isNaN b then NaN
      else if b = PInf then (if Fin 0 < e then PInf else Fin 0)
      else if b = NInf then
        (if Fin 0 < e then (if isOddInteger e then NInf else PInf)
         else (if isOddInteger e then NZero else Fin 0))
      else if b = Fin 0 then (if Fin 0 < e then Fin 0 else PInf)
      else if b = NZero then
        (if Fin 0 < e then (if isOddInteger e then NZero else Fin 0)
         else (if isOddInteger e then NInf else PInf))
      else if e = PInf then
        (if 1 < \<bar>realval b\<bar> then PInf else if \<bar>realval b\<bar> = 1 then NaN else Fin 0)
      else if e = NInf then
        (if 1 < \<bar>realval b\<bar> then Fin 0 else if \<bar>realval b\<bar> = 1 then NaN else PInf)
      else if realval b < 0 \<and> \<not> isInteger e then NaN
      else if realval b < 0 then
        rounded ((if isOddInteger e then - 1 else 1) * (\<bar>realval b\<bar> powr realval e))
      else rounded (realval b powr realval e))"

section \<open>Data model\<close>

text \<open>The interfaces of the repository's type module, field by field.\<close>

record GeoPoint =
  lat :: number
  lng :: number

record StreamParams =
  valleySlope :: number
  bankfullWidth :: number
  bankfullDepth :: number
  manningsN :: number
  sinuosityTarget :: number
  wavelength :: number
  amplitude :: number
  valleyLine :: "GeoPoint list"

record HydraulicMetrics =
  originalSlope :: number
  newSlope :: number
  sinuosityIndex :: number
  originalVelocity :: number
  newVelocity :: number
  shearStress :: number
  streamPower :: number
  channelLength :: number
  valleyLength :: number
  radiusOfCurvature :: number

record EcologicalMetrics =
  habitatUnits :: number
  hyporheicPotential :: string
  sedimentTransport :: string

datatype StreamHealth = DEGRADED | RECOVERING | STABLE | HIGH_RISK

text \<open>
  A warning is a string; the avulsion warning is a template literal. A message is
  kept as the list of its parts, so that the numbers it cites stay visible and no
  number formatting has to be modelled: \<open>ToFixed x d\<close> stands for \<open>x.toFixed(d)\<close>
  and \<open>ToStr x\<close> for the default conversion of \<open>${x}\<close>.
\<close>

datatype fragment = Lit string | ToFixed number nat | ToStr number

type_synonym message = "fragment list"

record Assessment =
  stats :: EcologicalMetrics
  health :: StreamHealth
  warnings :: "message list"

section \<open>The geometry library\<close>

text \<open>
  A GeoJSON position is the list \<open>[lng, lat]\<close>; a feature is modelled by its
  geometry's coordinates.
\<close>

type_synonym position = "number list"

datatype lineStringFeature = LineString (lineCoordinates: "position list")

datatype pointFeature = Point (pointCoordinates: position)

datatype error = Error string

text \<open>
  \<open>turf.lineString\<close> is the library's constructor. The library is not part of the
  repository; the constructor is modelled with the one check it makes: it throws
  on fewer than two positions, for every list the program hands it.
\<close>

definition tooFewPositions :: error where
  "tooFewPositions = Error ''coordinates must be an array of two or more positions''"

definition lineString :: "position list \<Rightarrow> error + lineStringFeature" where
  "lineString coords =
     (if length coords < 2 then Inl tooFewPositions else Inr (LineString coords))"

text \<open>
  The numeric geometry of the library (spline fitting and geodesic measurement) is
  a parameter of the model: each field is one library function with the options
  the program passes fixed.
  \<^item> \<open>bezierSpline l\<close> is \<open>turf.bezierSpline(l, {resolution: 10000, sharpness: 0.85})\<close>;
  \<^item> \<open>lengthMeters l\<close> is \<open>turf.length(l, {units: 'meters'})\<close>;
  \<^item> \<open>along l d\<close> is \<open>turf.along(l, d, {units: 'meters'})\<close>;
  \<^item> \<open>bearing p q\<close> is \<open>turf.bearing(p, q)\<close>;
  \<^item> \<open>destination p d b\<close> is \<open>turf.destination(p, d, b, {units: 'meters'})\<close>.

  \<open>along\<close> and \<open>destination\<close> construct a point feature, and the library's
  point constructor throws on a coordinate that is not a number; so both may
  throw, and their results are sums. Nothing is assumed about when they do.
\<close>

record turf =
  bezierSpline :: "lineStringFeature \<Rightarrow> lineStringFeature"
  lengthMeters :: "lineStringFeature \<Rightarrow> number"
  along :: "lineStringFeature \<Rightarrow> number \<Rightarrow> error + pointFeature"
  bearing :: "pointFeature \<Rightarrow> pointFeature \<Rightarrow> number"
  destination :: "pointFeature \<Rightarrow> number \<Rightarrow> number \<Rightarrow> error + pointFeature"

section \<open>generateMeander\<close>

text \<open>
  The body of the loop at step \<open>i\<close>: the point pushed onto \<open>meanderPoints\<close>, or
  the error a library call throws. \<open>stepFraction\<close> is the loop's
  \<open>fraction = i / totalSteps\<close>.
\<close>

definition stepFraction :: "nat \<Rightarrow> number \<Rightarrow> number" where
  "stepFraction i totalSteps = Fin (real i) / totalSteps"

definition meanderPoint ::
  "turf \<Rightarrow> lineStringFeature \<Rightarrow> number \<Rightarrow> number \<Rightarrow> number \<Rightarrow> number \<Rightarrow> nat \<Rightarrow>
   error + position" where
  "meanderPoint T smoothedValley axisLength safeWavelength amplitude' totalSteps i =
     (let fraction = stepFraction i totalSteps;
          distanceAlongValley = fraction * axisLength
      in (case along T smoothedValley distanceAlongValley of
            Inl e \<Rightarrow> Inl e
          | Inr centerPoint \<Rightarrow>
              (let lookAheadDist = Math_min (distanceAlongValley + Fin 1) axisLength
               in (case along T smoothedValley lookAheadDist of
                     Inl e \<Rightarrow> Inl e
                   | Inr lookAheadPoint \<Rightarrow>
                       (let bearing' = bearing T centerPoint lookAheadPoint;
                            dampening = Math_sin (fraction * Math_PI);
                            currentAmplitude = amplitude' * Math_pow dampening (Fin 0.2);
                            offset = currentAmplitude *
                                     Math_sin ((Fin 2 * Math_PI / safeWavelength) *
                                               distanceAlongValley);
                            offsetBearing = bearing' + Fin 90
                        in (case destination T centerPoint (Math_abs offset)
                                   (if Fin 0 < offset then offsetBearing
                                    else offsetBearing + Fin 180) of
                              Inl e \<Rightarrow> Inl e
                            | Inr meanderPoint' \<Rightarrow> Inr (pointCoordinates meanderPoint')))))))"

text \<open>
  The loop \<open>for (let i = 0; i <= totalSteps; i++)\<close>. An error thrown in the body
  leaves the loop. The loop does not end when \<open>totalSteps\<close> is \<open>Infinity\<close> (and no
  step throws), so its result is an option: \<open>None\<close> is the run that never returns.
\<close>

partial_function (option) meanderLoop ::
  "(nat \<Rightarrow> error + position) \<Rightarrow> number \<Rightarrow> nat \<Rightarrow> position list \<Rightarrow>
   (error + position list) option" where
  "meanderLoop pointAt totalSteps i meanderPoints =
     (if Fin (real i) \<le> totalSteps
      then (case pointAt i of
              Inl e \<Rightarrow> Some (Inl e)
            | Inr meanderPoint' \<Rightarrow>
                meanderLoop pointAt totalSteps (Suc i) (meanderPoints @ [meanderPoint']))
      else Some (Inr meanderPoints))"

text \<open>
  \<open>generateMeander(valleyPoints, amplitude, wavelength, pointsPerWave = 20)\<close>.
  The result is \<open>None\<close> when the loop does not end, \<open>Some (Inl e)\<close> when the call
  throws \<open>e\<close>, and \<open>Some (Inr path)\<close> when it returns \<open>path\<close>.
\<close>

definition defaultPointsPerWave :: number where
  "defaultPointsPerWave = Fin 20"

definition generateMeander ::
  "turf \<Rightarrow> GeoPoint list \<Rightarrow> number \<Rightarrow> number \<Rightarrow> number \<Rightarrow> (error + lineStringFeature) option" where
  "generateMeander T valleyPoints amplitude' wavelength' pointsPerWave =
     (if length valleyPoints < 2 then Some (lineString [])
      else
        let coords = map (\<lambda>p. [lng p, lat p]) valleyPoints in
        (case lineString coords of
           Inl e \<Rightarrow> Some (Inl e)
         | Inr rawValleyLine \<Rightarrow>
             (let smoothedValley = bezierSpline T rawValleyLine;
                  axisLength = lengthMeters T smoothedValley;
                  safeWavelength = Math_max wavelength' (Fin 10);
                  numWaves = axisLength / safeWavelength;
                  totalSteps = Math_ceil (numWaves * pointsPerWave)
              in (case meanderLoop
                        (meanderPoint T smoothedValley axisLength safeWavelength amplitude'
                           totalSteps)
                        totalSteps 0 [] of
                    None \<Rightarrow> None
                  | Some (Inl e) \<Rightarrow> Some (Inl e)
                  | Some (Inr meanderPoints) \<Rightarrow> Some (lineString meanderPoints)))))"

text \<open>
  The points of the steps of a list, in order, up to the first step that throws:
  what the loop has pushed when it leaves.
\<close>

fun pointsOfSteps :: "(nat \<Rightarrow> error + position) \<Rightarrow> nat list \<Rightarrow> error + position list" where
  "pointsOfSteps pointAt [] = Inr []"
| "pointsOfSteps pointAt (i # steps) =
     (case pointAt i of
        Inl e \<Rightarrow> Inl e
      | Inr meanderPoint' \<Rightarrow>
          (case pointsOfSteps pointAt steps of
             Inl e \<Rightarrow> Inl e
           | Inr meanderPoints \<Rightarrow> Inr (meanderPoint' # meanderPoints)))"

text \<open>
  The identity case of the spec, for comparison with \<open>meanderPoint\<close>: the point of
  the axis at step \<open>i\<close>, moved sideways by a distance of 0.
\<close>

definition axisSample ::
  "turf \<Rightarrow> lineStringFeature \<Rightarrow> number \<Rightarrow> number \<Rightarrow> nat \<Rightarrow> error + position" where
  "axisSample T smoothedValley axisLength totalSteps i =
     (let distanceAlongValley = stepFraction i totalSteps * axisLength
      in (case along T smoothedValley distanceAlongValley of
            Inl e \<Rightarrow> Inl e
          | Inr centerPoint \<Rightarrow>
              (case along T smoothedValley
                      (Math_min (distanceAlongValley + Fin 1) axisLength) of
                 Inl e \<Rightarrow> Inl e
               | Inr lookAheadPoint \<Rightarrow>
                   (case destination T centerPoint (Fin 0)
                           (bearing T centerPoint lookAheadPoint + Fin 90 + Fin 180) of
                      Inl e \<Rightarrow> Inl e
                    | Inr axisPoint \<Rightarrow> Inr (pointCoordinates axisPoint)))))"

section \<open>calculateHydraulics\<close>

definition calculateVelocity :: "StreamParams \<Rightarrow> number \<Rightarrow> number \<Rightarrow> number" where
  "calculateVelocity params hydraulicRadius slope =
     (Fin 1 / manningsN params) * Math_pow hydraulicRadius (Fin 2 / Fin 3) * Math_pow slope (Fin 0.5)"

text \<open>
  The body of \<open>calculateHydraulics\<close> after its two length measurements, as a
  function of the parameters and of the measured \<open>valleyLength\<close> and
  \<open>channelLength\<close>.
\<close>

definition hydraulicsFromLengths :: "StreamParams \<Rightarrow> number \<Rightarrow> number \<Rightarrow> HydraulicMetrics" where
  "hydraulicsFromLengths params valleyLength' channelLength' =
     (let si = (if Fin 0 < valleyLength' then Math_max (Fin 1) (channelLength' / valleyLength')
                else Fin 1);
          valleySlopeDecimal = valleySlope params / Fin 100;
          channelSlopeDecimal = (if Fin 0 < si then valleySlopeDecimal / si
                                 else valleySlopeDecimal);
          w = bankfullWidth params;
          d = bankfullDepth params;
          hydraulicRadius = (w * d) / (w + Fin 2 * d);
          vOriginal = calculateVelocity params hydraulicRadius valleySlopeDecimal;
          vNew = calculateVelocity params hydraulicRadius channelSlopeDecimal;
          rho = Fin 1000;
          g = Fin 9.81;
          shearStress' = rho * g * hydraulicRadius * channelSlopeDecimal;
          area = w * d;
          q = vNew * area;
          streamPower' = rho * g * q * channelSlopeDecimal;
          radiusOfCurvature' =
            (if Fin 0 < amplitude params
             then Math_pow (wavelength params) (Fin 2) /
                  (Fin 4 * Math_pow Math_PI (Fin 2) * amplitude params)
             else Fin 0)
      in \<lparr> originalSlope = valleySlopeDecimal,
           newSlope = channelSlopeDecimal,
           sinuosityIndex = si,
           originalVelocity = vOriginal,
           newVelocity = vNew,
           shearStress = shearStress',
           streamPower = streamPower',
           channelLength = channelLength',
           valleyLength = valleyLength',
           radiusOfCurvature = radiusOfCurvature' \<rparr>)"

text \<open>
  \<open>calculateHydraulics(params, meanderGeo)\<close>: \<open>Inl e\<close> when the call throws \<open>e\<close>
  (the valley line is built with \<open>turf.lineString\<close>), \<open>Inr metrics\<close> when it returns.
\<close>

definition calculateHydraulics ::
  "turf \<Rightarrow> StreamParams \<Rightarrow> lineStringFeature \<Rightarrow> error + HydraulicMetrics" where
  "calculateHydraulics T params meanderGeo =
     (let coords = map (\<lambda>p. [lng p, lat p]) (valleyLine params) in
      (case lineString coords of
         Inl e \<Rightarrow> Inl e
       | Inr valleyLine' \<Rightarrow>
           Inr (hydraulicsFromLengths params
                  (lengthMeters T valleyLine') (lengthMeters T meanderGeo))))"

section \<open>assessEcologicalHealth\<close>

text \<open>The guarded ratio \<open>rcRatio\<close> of radius of curvature to bankfull width.\<close>

definition rcRatio :: "HydraulicMetrics \<Rightarrow> StreamParams \<Rightarrow> number" where
  "rcRatio metrics params =
     (if Fin 0 < bankfullWidth params
      then radiusOfCurvature metrics / bankfullWidth params
      else Fin 10)"

definition avulsionWarning :: "HydraulicMetrics \<Rightarrow> StreamParams \<Rightarrow> number \<Rightarrow> message" where
  "avulsionWarning metrics params ratio =
     [Lit ''CRITICAL: Radius of Curvature ('', ToFixed (radiusOfCurvature metrics) 1,
      Lit ''m) is too tight for width ('', ToStr (bankfullWidth params),
      Lit ''m). Ratio '', ToFixed ratio 1, Lit '' < 2.0.'']"

definition straightenedWarning :: message where
  "straightenedWarning = [Lit ''Channel is straightened. Low habitat diversity.'']"

definition stressRatio :: "HydraulicMetrics \<Rightarrow> StreamParams \<Rightarrow> number" where
  "stressRatio metrics params =
     (if Fin 0 < originalSlope metrics
      then shearStress metrics /
           (Fin 1000 * Fin 9.81 *
            ((bankfullWidth params * bankfullDepth params) /
             (bankfullWidth params + Fin 2 * bankfullDepth params)) *
            originalSlope metrics)
      else Fin 1)"

text \<open>
  The function after \<open>rcRatio\<close> is computed, with the ratio as an argument:
  \<open>assessEcologicalHealth\<close> calls it with the guarded ratio.
\<close>

definition assessWithRatio :: "number \<Rightarrow> HydraulicMetrics \<Rightarrow> StreamParams \<Rightarrow> Assessment" where
  "assessWithRatio ratio metrics params =
     (let habitatSpacing = Fin 6 * bankfullWidth params;
          habitatUnits' = Math_floor (channelLength metrics / habitatSpacing);
          (health', warnings') =
            (if ratio < Fin 2.0 \<and> Fin 1.05 < sinuosityIndex metrics
             then (HIGH_RISK, [avulsionWarning metrics params ratio])
             else if sinuosityIndex metrics < Fin 1.2
             then (DEGRADED, [straightenedWarning])
             else if Fin 1.2 < sinuosityIndex metrics \<and> sinuosityIndex metrics < Fin 1.5
             then (RECOVERING, [])
             else (STABLE, []));
          hyporheic0 = ''Low'';
          hyporheic1 = (if Fin 1.3 < sinuosityIndex metrics then ''Medium'' else hyporheic0);
          hyporheic = (if Fin 1.5 < sinuosityIndex metrics then ''High'' else hyporheic1);
          stress = stressRatio metrics params;
          sediment0 = ''Equilibrium'';
          sediment1 = (if stress < Fin 0.6 then ''Aggradation (Deposition)'' else sediment0);
          sediment = (if Fin 1.2 < stress then ''Degradation (Scour)'' else sediment1)
      in \<lparr> stats = \<lparr> habitatUnits = habitatUnits',
                       hyporheicPotential = hyporheic,
                       sedimentTransport = sediment \<rparr>,
           health = health',
           warnings = warnings' \<rparr>)"

definition assessEcologicalHealth :: "HydraulicMetrics \<Rightarrow> StreamParams \<Rightarrow> Assessment" where
  "assessEcologicalHealth metrics params = assessWithRatio (rcRatio metrics params) metrics params"

section \<open>Example inputs\<close>

text \<open>The application's \<open>INITIAL_PARAMS\<close>.\<close>

definition INITIAL_PARAMS :: StreamParams where
  "INITIAL_PARAMS =
     \<lparr> valleySlope = Fin 2.5,
       bankfullWidth = Fin 8,
       bankfullDepth = Fin 1.2,
       manningsN = Fin 0.045,
       sinuosityTarget = Fin 1.0,
       wavelength = Fin 100,
       amplitude = Fin 20,
       valleyLine = [\<lparr> lat = Fin (- 29.356), lng = Fin 29.997 \<rparr>,
                     \<lparr> lat = Fin (- 29.354), lng = Fin 30.001 \<rparr>,
                     \<lparr> lat = Fin (- 29.352), lng = Fin 30.005 \<rparr>] \<rparr>"

text \<open>A channel path of four positions between the ends of that valley line.\<close>

definition examplePath :: lineStringFeature where
  "examplePath =
     LineString [[Fin 29.997, Fin (- 29.356)], [Fin 29.999, Fin (- 29.353)],
                 [Fin 30.003, Fin (- 29.355)], [Fin 30.005, Fin (- 29.352)]]"

text \<open>A path whose coordinates are all \<open>NaN\<close>.\<close>

definition nanPath :: lineStringFeature where
  "nanPath = LineString [[NaN, NaN], [NaN, NaN]]"

text \<open>A valley line of two coincident points.\<close>

definition coincidentValley :: "GeoPoint list" where
  "coincidentValley = [\<lparr> lat = Fin 0, lng = Fin 0 \<rparr>, \<lparr> lat = Fin 0, lng = Fin 0 \<rparr>]"

text \<open>A stored set of metrics, as \<open>assessEcologicalHealth\<close> may be handed.\<close>

definition exampleMetrics :: HydraulicMetrics where
  "exampleMetrics =
     \<lparr> originalSlope = Fin 0.025,
       newSlope = Fin 0.02,
       sinuosityIndex = Fin 1.25,
       originalVelocity = Fin 3.3,
       newVelocity = Fin 2.9,
       shearStress = Fin 181,
       streamPower = Fin 5500,
       channelLength = Fin 1117.5,
       valleyLength = Fin 894,
       radiusOfCurvature = Fin 12 \<rparr>"

text \<open>
  A stand-in for the library in the examples: it measures the line \<open>path\<close> as
  \<open>pathLength\<close> and every other line as \<open>otherLength\<close>; the spline of a line is the
  line itself, and a point stays where it is.
\<close>

definition stubTurf :: "lineStringFeature \<Rightarrow> number \<Rightarrow> number \<Rightarrow> turf" where
  "stubTurf path pathLength otherLength =
     \<lparr> bezierSpline = (\<lambda>l. l),
       lengthMeters = (\<lambda>l. if l = path then pathLength else otherLength),
       along = (\<lambda>l d. Inr (Point (case lineCoordinates l of [] \<Rightarrow> [] | c # cs \<Rightarrow> c))),
       bearing = (\<lambda>p q. Fin 0),
       destination = (\<lambda>p d b. Inr p) \<rparr>"

text \<open>
  A second stand-in measures on a flat map: a position \<open>[x, y]\<close> is a point of the
  plane, in metres. Lengths are Euclidean, the spline of a line is the line
  itself, \<open>along\<close> walks the line and stays at its last point beyond the end, a
  bearing is measured in degrees clockwise from the \<open>y\<close> axis, and \<open>destination\<close>
  moves a point by a distance in the direction of a bearing. As the library does,
  \<open>along\<close> throws on a distance of \<open>NaN\<close>, and \<open>destination\<close> on a \<open>NaN\<close> argument.
\<close>

definition planePoint :: "position \<Rightarrow> real \<times> real" where
  "planePoint c = (case c of x # y # rest \<Rightarrow> (realval x, realval y) | _ \<Rightarrow> (0, 0))"

definition planePosition :: "real \<times> real \<Rightarrow> position" where
  "planePosition q = [Fin (fst q), Fin (snd q)]"

definition planeDistance :: "real \<times> real \<Rightarrow> real \<times> real \<Rightarrow> real" where
  "planeDistance p q = sqrt ((fst q - fst p) ^ 2 + (snd q - snd p) ^ 2)"

fun planeLength :: "(real \<times> real) list \<Rightarrow> real" where
  "planeLength (p # q # ps) = planeDistance p q + planeLength (q # ps)"
| "planeLength ps = 0"

fun planeAlong :: "(real \<times> real) list \<Rightarrow> real \<Rightarrow> real \<times> real" where
  "planeAlong [] d = (0, 0)"
| "planeAlong [p] d = p"
| "planeAlong (p # q # ps) d =
     (if d \<le> 0 then p
      else if d \<le> planeDistance p q
      then (fst p + d / planeDistance p q * (fst q - fst p),
            snd p + d / planeDistance p q * (snd q - snd p))
      else planeAlong (q # ps) (d - planeDistance p q))"

definition planeBearing :: "real \<times> real \<Rightarrow> real \<times> real \<Rightarrow> real" where
  "planeBearing p q =
     (let dx = fst q - fst p; dy = snd q - snd p
      in (if 0 < dy then arctan (dx / dy)
          else if dy < 0 then (if 0 \<le> dx then arctan (dx / dy) + pi else arctan (dx / dy) - pi)
          else if 0 < dx then pi / 2
          else if dx < 0 then - pi / 2
          else 0) * 180 / pi)"

definition planeMove :: "real \<times> real \<Rightarrow> real \<Rightarrow> real \<Rightarrow> real \<times> real" where
  "planeMove p d b = (fst p + d * sin (b * pi / 180), snd p + d * cos (b * pi / 180))"

definition planeTurf :: turf where
  "planeTurf =
     \<lparr> bezierSpline = (\<lambda>l. l),
       lengthMeters = (\<lambda>l. Fin (planeLength (map planePoint (lineCoordinates l)))),
       along = (\<lambda>l d. if isNaN d then Inl (Error ''coord is required'')
                       else Inr (Point (planePosition
                              (planeAlong (map planePoint (lineCoordinates l)) (realval d))))),
       bearing = (\<lambda>p q. Fin (planeBearing (planePoint (pointCoordinates p))
                                (planePoint (pointCoordinates q)))),
       destination = (\<lambda>p d b. if isNaN d \<or> isNaN b
                               then Inl (Error ''coordinates must contain numbers'')
                               else Inr (Point (planePosition
                                      (planeMove (planePoint (pointCoordinates p))
                                         (realval d) (realval b))))) \<rparr>"

text \<open>
  A valley with a bend, 10 m along its two legs and 6 m between its ends; and a
  straight valley of 10 m.
\<close>

definition bentValley :: "GeoPoint list" where
  "bentValley = [\<lparr> lat = Fin 0, lng = Fin 0 \<rparr>, \<lparr> lat = Fin 4, lng = Fin 3 \<rparr>,
                 \<lparr> lat = Fin 0, lng = Fin 6 \<rparr>]"

definition chordPath :: lineStringFeature where
  "chordPath = LineString [[Fin 0, Fin 0], [Fin 6, Fin 0]]"



section \<open>Facts about numbers\<close>

lemmas arith_defs = plus_number_def times_number_def divide_number_def less_number_def
  less_eq_number_def infinity_def finiteResult_def signedZero_def

subsection \<open>The range of the format\<close>

lemma ob_big: "10 ^ 12 < overflowBound"
  by (simp add: overflowBound_def)

lemma ub_small: "underflowBound < 1 / 10 ^ 12"
  by (simp add: underflowBound_def)

lemma ub_pos: "0 < underflowBound"
  by (simp add: underflowBound_def)

lemma ob_gt_one: "1 < overflowBound"
  using ob_big by simp

lemma ob_gt_four: "4 < overflowBound"
  using ob_big by simp

lemma ub_lt_one: "underflowBound < 1"
  using ub_small by simp

lemma ub_lt_ob: "underflowBound < overflowBound"
  using ub_lt_one ob_gt_one by simp

text \<open>A result of moderate size is kept; this evaluates the examples.\<close>

lemma rounded_mid: "1 / 10 ^ 12 \<le> \<bar>r\<bar> \<Longrightarrow> \<bar>r\<bar> \<le> 10 ^ 12 \<Longrightarrow> rounded r = Fin r"
  using ob_big ub_small by (simp add: rounded_def)

text \<open>
  What the comparisons below use of the passage from the real result to the
  number: it is never \<open>NaN\<close>, it is monotone, it keeps the sign, and a result
  within the range stays within any bound of the exact result. Rounding to nearest
  has the first three properties as well, and the fourth for every bound that is
  itself a number of the format, which the bounds used below are (a slope, a
  length, 1, \<open>Math.PI\<close>).
\<close>

lemma finiteResult_not_NaN: "\<not> isNaN (finiteResult s r)"
  by (simp add: finiteResult_def rounded_def signedZero_def infinity_def)

lemma finiteResult_mono: "r \<le> r' \<Longrightarrow> finiteResult s r \<le> finiteResult s' r'"
  using ub_lt_ob ub_pos
  by (auto simp add: finiteResult_def rounded_def signedZero_def infinity_def less_eq_number_def)

lemma finiteResult_nonneg: "0 \<le> r \<Longrightarrow> Fin 0 \<le> finiteResult s r"
  using ub_lt_ob ub_pos
  by (auto simp add: finiteResult_def rounded_def signedZero_def infinity_def less_eq_number_def)

lemma finiteResult_nonpos: "r \<le> 0 \<Longrightarrow> finiteResult s r \<le> Fin 0"
  using ub_lt_ob ub_pos
  by (auto simp add: finiteResult_def rounded_def signedZero_def infinity_def less_eq_number_def)

lemma finiteResult_ranged: "isInf (finiteResult s r) \<or> representable (finiteResult s r)"
  using ub_lt_ob ub_pos ob_gt_one
  by (auto simp add: finiteResult_def rounded_def signedZero_def infinity_def representable_def
      isFinite_def)

lemma finiteResult_bounded:
  assumes "\<bar>r\<bar> < overflowBound"
  shows "representable (finiteResult s r) \<and> \<bar>realval (finiteResult s r)\<bar> \<le> \<bar>r\<bar> \<and>
         (0 \<le> r \<longrightarrow> 0 \<le> realval (finiteResult s r)) \<and>
         (r \<le> 0 \<longrightarrow> realval (finiteResult s r) \<le> 0)"
  using assms ob_gt_one
  by (auto simp add: finiteResult_def rounded_def signedZero_def infinity_def representable_def
      isFinite_def)

lemma finiteResult_zero: "finiteResult s 0 = signedZero s"
  by (simp add: finiteResult_def)

lemma finiteResult_one: "finiteResult s 1 = Fin 1"
  by (simp add: finiteResult_def rounded_mid)

subsection \<open>Order and finiteness\<close>

lemma lt_not_NaN: "x < y \<Longrightarrow> \<not> isNaN x \<and> \<not> isNaN y"
  by (simp add: less_number_def)

lemma lt_imp_le: "x < y \<Longrightarrow> x \<le> (y::number)"
  by (cases x; cases y) (simp_all add: less_number_def less_eq_number_def)

lemma isZero_not_pos: "isZero x \<Longrightarrow> \<not> Fin 0 < x"
  by (cases x) (simp_all add: less_number_def)

lemma PInf_not_lt: "\<not> PInf < x"
  by (cases x) (simp_all add: less_number_def)

lemma ge_one_pos: "Fin 1 \<le> x \<Longrightarrow> Fin 0 < x"
  by (cases x) (simp_all add: less_number_def less_eq_number_def)

lemma pos_le_self: "Fin 0 < a \<Longrightarrow> Fin 0 \<le> a \<and> a \<le> a"
  by (cases a) (simp_all add: less_number_def less_eq_number_def)

lemma le_PInf: "x \<le> PInf \<longleftrightarrow> \<not> isNaN x"
  by (cases x) (simp_all add: less_eq_number_def)

lemma NInf_le: "NInf \<le> x \<longleftrightarrow> \<not> isNaN x"
  by (cases x) (simp_all add: less_eq_number_def)

lemma PInf_le: "PInf \<le> x \<longleftrightarrow> x = PInf"
  by (cases x) (simp_all add: less_eq_number_def)

lemma le_NInf: "x \<le> NInf \<longleftrightarrow> x = NInf"
  by (cases x) (simp_all add: less_eq_number_def)

lemma representable_finite: "representable x \<Longrightarrow> isFinite x"
  by (simp add: representable_def)

lemma finite_le_iff: "isFinite x \<Longrightarrow> isFinite y \<Longrightarrow> x \<le> y \<longleftrightarrow> realval x \<le> realval y"
  by (cases x; cases y) (simp_all add: isFinite_def less_eq_number_def)

lemma finite_nonneg_iff: "isFinite x \<Longrightarrow> Fin 0 \<le> x \<longleftrightarrow> 0 \<le> realval x"
  by (cases x) (simp_all add: isFinite_def less_eq_number_def)

lemma finite_nonpos_iff: "isFinite x \<Longrightarrow> x \<le> Fin 0 \<longleftrightarrow> realval x \<le> 0"
  by (cases x) (simp_all add: isFinite_def less_eq_number_def)

lemma zero_div_zero: "isZero ts \<Longrightarrow> stepFraction 0 ts = NaN"
  by (cases ts) (simp_all add: stepFraction_def divide_number_def)

subsection \<open>Products and quotients\<close>

lemma times_finite_eq:
  "isFinite x \<Longrightarrow> isFinite y \<Longrightarrow>
   x * y = finiteResult (signbit x \<noteq> signbit y) (realval x * realval y)"
  by (cases x; cases y) (simp_all add: isFinite_def times_number_def)

lemma divide_finite_eq:
  "isFinite x \<Longrightarrow> isFinite y \<Longrightarrow> \<not> isZero y \<Longrightarrow>
   x / y = finiteResult (signbit x \<noteq> signbit y) (realval x / realval y)"
  by (cases x; cases y) (simp_all add: isFinite_def divide_number_def)

lemma zero_times_finite:
  assumes "isZero a" "isFinite b"
  shows "isZero (a * b)"
  using assms by (cases a; cases b) (simp_all add: isFinite_def arith_defs)

text \<open>A quotient is \<open>NaN\<close>, infinite or a finite number of the format.\<close>

lemma quotient_ranged: "isNaN (x / y) \<or> isInf (x / y) \<or> representable (x / y)"
proof -
  have z: "\<And>s. representable (signedZero s)"
    using ob_gt_one by (simp add: signedZero_def representable_def isFinite_def)
  have i: "\<And>s. isInf (infinity s)"
    by (simp add: infinity_def)
  show ?thesis
    using z i finiteResult_ranged by (auto simp add: divide_number_def)
qed

text \<open>The product of a factor within the unit interval and a representable number.\<close>

lemma unit_times_representable:
  assumes "isFinite k" "\<bar>realval k\<bar> \<le> 1" "representable x"
  shows "representable (k * x) \<and> \<bar>realval (k * x)\<bar> \<le> \<bar>realval x\<bar>"
proof -
  have x: "isFinite x" "\<bar>realval x\<bar> < overflowBound"
    using assms(3) by (simp_all add: representable_def)
  have "\<bar>realval k * realval x\<bar> \<le> \<bar>realval x\<bar>"
    using assms(2) by (simp add: abs_mult mult_left_le_one_le)
  then show ?thesis
    using finiteResult_bounded [of "realval k * realval x" "signbit k \<noteq> signbit x"] x(2)
    by (simp add: times_finite_eq [OF assms(1) x(1)])
qed

text \<open>Dividing a positive number by one that is at least 1 does not enlarge it.\<close>

lemma div_ge_one:
  assumes "Fin 0 < a" and "isInf a \<or> representable a" and "Fin 1 \<le> b"
  shows "isNaN (a / b) \<or> (Fin 0 \<le> a / b \<and> a / b \<le> a)"
proof (cases "isInf a \<or> isInf b")
  case True
  with assms(1,3) show ?thesis
    by (cases a; cases b) (simp_all add: arith_defs)
next
  case False
  with assms have a: "isFinite a" "\<bar>realval a\<bar> < overflowBound" "0 < realval a"
    and b: "isFinite b" "1 \<le> realval b" "\<not> isZero b"
    by (cases a; cases b; simp add: representable_def isFinite_def less_number_def
        less_eq_number_def)+
  have q: "\<bar>realval a / realval b\<bar> \<le> \<bar>realval a\<bar>" "0 \<le> realval a / realval b"
    using a(3) b(2) by (simp_all add: field_simps mult_le_cancel_left1)
  have lt: "\<bar>realval a / realval b\<bar> < overflowBound"
    using q(1) a(2) by linarith
  have e: "a / b = finiteResult (signbit a \<noteq> signbit b) (realval a / realval b)"
    using a(1) b(1) b(3) by (rule divide_finite_eq)
  from finiteResult_bounded [OF lt, of "signbit a \<noteq> signbit b"] q
  have r: "representable (a / b)" "\<bar>realval (a / b)\<bar> \<le> \<bar>realval a\<bar>" "0 \<le> realval (a / b)"
    unfolding e by linarith+
  then have "Fin 0 \<le> a / b" "a / b \<le> a"
    using a(1,3) by (simp_all add: finite_nonneg_iff finite_le_iff representable_finite)
  then show ?thesis by simp
qed

text \<open>
  Two products with the same factor \<open>K\<close>, of two numbers \<open>0 \<le> sn \<le> so\<close>: one of
  them is \<open>NaN\<close>, or the first lies between zero and the second.
\<close>

lemma mult_between_fin:
  assumes "0 \<le> t" "t \<le> u"
  shows "(Fin 0 \<le> finiteResult s (k * t) \<and> finiteResult s (k * t) \<le> finiteResult s' (k * u)) \<or>
         (finiteResult s' (k * u) \<le> finiteResult s (k * t) \<and> finiteResult s (k * t) \<le> Fin 0)"
proof (cases "0 \<le> k")
  case True
  then have "0 \<le> k * t" "k * t \<le> k * u"
    using assms by (simp_all add: mult_left_mono)
  then show ?thesis
    by (simp add: finiteResult_nonneg finiteResult_mono)
next
  case False
  then have "k * t \<le> 0" "k * u \<le> k * t"
    using assms by (simp_all add: mult_le_0_iff mult_left_mono_neg)
  then show ?thesis
    by (simp add: finiteResult_nonpos finiteResult_mono)
qed

lemma mult_between:
  assumes "Fin 0 \<le> sn" "sn \<le> so"
  shows "isNaN (K * sn) \<or> isNaN (K * so) \<or>
         (Fin 0 \<le> K * sn \<and> K * sn \<le> K * so) \<or> (K * so \<le> K * sn \<and> K * sn \<le> Fin 0)"
proof (cases "isFinite K \<and> isFinite sn \<and> isFinite so")
  case True
  then have "0 \<le> realval sn" "realval sn \<le> realval so"
    using assms by (simp_all add: finite_nonneg_iff finite_le_iff)
  from mult_between_fin [OF this] True show ?thesis
    by (simp add: times_finite_eq)
next
  case False
  note le = le_PInf NInf_le PInf_le le_NInf finiteResult_not_NaN finiteResult_nonneg
    finiteResult_nonpos
  have zero: "\<And>s. Fin 0 \<le> signedZero s \<and> signedZero s \<le> Fin 0"
    by (simp add: signedZero_def less_eq_number_def)
  from assms have so: "so = PInf \<or> isFinite so" and sn: "sn = PInf \<or> isFinite sn"
    by (cases so; cases sn; simp add: less_eq_number_def isFinite_def)+
  have up: "sn = PInf \<Longrightarrow> so = PInf"
    using assms(2) by (simp add: PInf_le)
  show ?thesis
  proof (cases K)
    case NaN
    then show ?thesis by (simp add: times_number_def)
  next
    case PInf
    with assms show ?thesis
      by (cases sn; cases so) (simp_all add: times_number_def less_eq_number_def infinity_def)
  next
    case NInf
    with assms show ?thesis
      by (cases sn; cases so) (simp_all add: times_number_def less_eq_number_def infinity_def)
  next
    case NZero
    with False so sn up have "so = PInf"
      by (auto simp add: isFinite_def)
    with NZero show ?thesis by (simp add: times_number_def)
  next
    case (Fin k)
    with False so sn up have so': "so = PInf"
      by (auto simp add: isFinite_def)
    show ?thesis
    proof (cases "k = 0")
      case True
      with Fin so' show ?thesis by (simp add: times_number_def)
    next
      case nz: False
      show ?thesis
      proof (cases "sn = PInf")
        case True
        with Fin so' nz show ?thesis
          by (simp add: times_number_def infinity_def less_eq_number_def)
      next
        case False
        with sn have f: "isFinite sn" by simp
        then have t: "0 \<le> realval sn"
          using assms(1) by (simp add: finite_nonneg_iff)
        have e: "K * sn = finiteResult (signbit K \<noteq> signbit sn) (k * realval sn)"
          using times_finite_eq [of K sn] f Fin by (simp add: isFinite_def)
        have i: "K * so = infinity (k < 0)"
          using Fin so' nz by (simp add: times_number_def)
        show ?thesis
        proof (cases "k < 0")
          case True
          then have "k * realval sn \<le> 0"
            using t by (simp add: mult_le_0_iff)
          then show ?thesis
            unfolding e i using True by (simp add: le infinity_def)
        next
          case False
          then have "0 \<le> k * realval sn"
            using t by simp
          then show ?thesis
            unfolding e i using False by (simp add: le infinity_def)
        qed
      qed
    qed
  qed
qed

text \<open>The quotient of a number by one it lies between zero and: at most 1, or \<open>NaN\<close>.\<close>

lemma quotient_le_one:
  assumes "(Fin 0 \<le> A \<and> A \<le> B) \<or> (B \<le> A \<and> A \<le> Fin 0)"
  shows "isNaN (A / B) \<or> A / B \<le> Fin 1"
proof (cases "isFinite A \<and> isFinite B \<and> \<not> isZero B")
  case True
  then have "realval B \<noteq> 0"
    by (cases B) (simp_all add: isFinite_def)
  moreover have "(0 \<le> realval A \<and> realval A \<le> realval B) \<or>
                 (realval B \<le> realval A \<and> realval A \<le> 0)"
    using assms True by (simp add: finite_nonneg_iff finite_nonpos_iff finite_le_iff)
  ultimately have "realval A / realval B \<le> 1"
    by (auto simp add: field_simps divide_le_eq)
  from finiteResult_mono [OF this] True show ?thesis
    by (simp add: divide_finite_eq finiteResult_one)
next
  case False
  with assms show ?thesis
    by (cases A; cases B) (simp_all add: isFinite_def arith_defs)
qed

lemma ratio_bound:
  assumes "Fin 0 < so" and "isNaN sn \<or> (Fin 0 \<le> sn \<and> sn \<le> so)"
  shows "isNaN ((K * sn) / (K * so)) \<or> (K * sn) / (K * so) \<le> Fin 1"
proof (cases "isNaN sn \<or> isNaN (K * sn) \<or> isNaN (K * so)")
  case True
  then show ?thesis
    by (auto simp add: times_number_def divide_number_def)
next
  case False
  with assms(2) mult_between [of sn so K]
  have "(Fin 0 \<le> K * sn \<and> K * sn \<le> K * so) \<or> (K * so \<le> K * sn \<and> K * sn \<le> Fin 0)"
    by blast
  then show ?thesis
    by (rule quotient_le_one)
qed

lemma times_nonneg:
  assumes "Fin 0 \<le> x" "Fin 0 \<le> y"
  shows "isNaN (x * y) \<or> Fin 0 \<le> x * y"
proof (cases "isFinite x \<and> isFinite y")
  case True
  then have "0 \<le> realval x * realval y"
    using assms by (simp add: finite_nonneg_iff)
  then show ?thesis
    using True by (simp add: times_finite_eq finiteResult_nonneg)
next
  case False
  with assms show ?thesis
    by (cases x; cases y) (simp_all add: isFinite_def times_number_def less_eq_number_def
        infinity_def)
qed

lemma times_mono:
  assumes "isFinite c" "Fin 0 \<le> c" "isFinite a" "isFinite b" "a \<le> b"
  shows "c * a \<le> c * b"
proof -
  have "realval c * realval a \<le> realval c * realval b"
    using assms by (simp add: finite_nonneg_iff finite_le_iff mult_left_mono)
  then show ?thesis
    using assms(1,3,4) by (simp add: times_finite_eq finiteResult_mono)
qed

lemma div_lt_one:
  assumes "Fin 0 \<le> c" "c < v"
  shows "c / v \<le> Fin 1"
proof -
  have n: "\<not> isNaN (c / v)"
    using assms
    by (cases c; cases v)
       (simp_all add: divide_number_def less_number_def less_eq_number_def
          finiteResult_not_NaN signedZero_def infinity_def)
  from assms have "Fin 0 \<le> c \<and> c \<le> v"
    by (simp add: lt_imp_le)
  then have "isNaN (c / v) \<or> c / v \<le> Fin 1"
    by (intro quotient_le_one) simp
  with n show ?thesis by simp
qed

subsection \<open>\<open>Math.max\<close>, \<open>Math.ceil\<close> and \<open>Math.abs\<close>\<close>

text \<open>The floor of 10 m under the wavelength; a wavelength of \<open>NaN\<close> stays \<open>NaN\<close>.\<close>

lemma safeWavelength_floor: "\<not> isNaN w \<Longrightarrow> Fin 10 \<le> Math_max w (Fin 10)"
  by (cases w) (simp_all add: Math_max_def less_number_def less_eq_number_def)

lemma safeWavelength_NaN: "isNaN w \<Longrightarrow> Math_max w (Fin 10) = NaN"
  by (simp add: Math_max_def)

lemma Math_max_one_NaN: "isNaN (Math_max (Fin 1) x) \<longleftrightarrow> isNaN x"
  by (cases x) (simp_all add: Math_max_def less_number_def)

lemma Math_max_one_ge: "\<not> isNaN x \<Longrightarrow> Fin 1 \<le> Math_max (Fin 1) x"
  by (cases x) (simp_all add: Math_max_def less_number_def less_eq_number_def)

lemma Math_max_one_eq: "Math_max (Fin 1) x = Fin 1 \<longleftrightarrow> x \<le> Fin 1"
  by (cases x) (auto simp add: Math_max_def less_number_def less_eq_number_def)

lemma abs_zero: "isZero x \<Longrightarrow> Math_abs x = Fin 0 \<and> \<not> Fin 0 < x"
  by (cases x) (simp_all add: less_number_def)

lemma ceil_pos:
  assumes "Fin 0 < Math_ceil x" "isFinite (Math_ceil x)"
  shows "1 \<le> realval (Math_ceil x)"
proof (cases x)
  case (Fin r)
  with assms(1) have "0 < \<lceil>r\<rceil>"
    by (simp add: less_number_def split: if_splits)
  then have "1 \<le> \<lceil>r\<rceil>" by linarith
  then have "1 \<le> real_of_int \<lceil>r\<rceil>"
    by (metis of_int_1_le_iff)
  with Fin assms(1) show ?thesis
    by (simp add: less_number_def split: if_splits)
qed (use assms in \<open>simp_all add: isFinite_def less_number_def\<close>)

text \<open>A counter \<open>i\<close> against a real bound \<open>x\<close>: \<open>i \<le> x\<close> exactly for \<open>i < \<lfloor>x\<rfloor> + 1\<close>.\<close>

lemma beyond_floor:
  assumes "nat (\<lfloor>x\<rfloor> + 1) \<le> i"
  shows "x < real i"
proof -
  from assms have "\<lfloor>x\<rfloor> + 1 \<le> int i" by linarith
  then have "real_of_int (\<lfloor>x\<rfloor> + 1) \<le> real i"
    by (metis of_int_le_iff of_int_of_nat_eq)
  moreover have "x < real_of_int (\<lfloor>x\<rfloor> + 1)" by linarith
  ultimately show ?thesis by linarith
qed

lemma within_floor:
  assumes "i < nat (\<lfloor>x\<rfloor> + 1)"
  shows "real i \<le> x"
proof -
  from assms have "int i \<le> \<lfloor>x\<rfloor>" by linarith
  then show ?thesis by (simp add: le_floor_iff)
qed

subsection \<open>\<open>Math.pow\<close> and \<open>Math.sin\<close>\<close>

lemma rounded_finiteResult: "rounded r = finiteResult False r"
  using ub_pos ob_gt_one by (simp add: finiteResult_def rounded_def signedZero_def)

lemma rounded_unit:
  assumes "0 \<le> v" "v \<le> 1"
  shows "\<exists>x. rounded v = Fin x \<and> 0 \<le> x \<and> x \<le> 1"
  using assms ob_gt_one by (auto simp add: rounded_def signedZero_def)

lemma two_thirds: "Fin 2 / Fin 3 = Fin (2 / 3)"
  by (simp add: arith_defs rounded_mid)

text \<open>The square root taken by \<open>Math.pow(x, 0.5)\<close> on a finite \<open>x \<ge> 0\<close>.\<close>

lemma pow_half:
  assumes "isFinite x" "Fin 0 \<le> x"
  shows "Math_pow x (Fin 0.5) = finiteResult False (realval x powr 0.5)"
  using assms
  by (cases x)
     (simp_all add: Math_pow_def isInteger_def isOddInteger_def isFinite_def less_number_def
        less_eq_number_def rounded_finiteResult finiteResult_zero signedZero_def)

lemma powr_half_bound:
  fixes r :: real
  assumes "0 \<le> r"
  shows "r powr 0.5 \<le> max 1 r"
proof (cases "r \<le> 1")
  case True
  then have "r powr 0.5 \<le> 1"
    using assms by (simp add: powr_le1)
  then show ?thesis by simp
next
  case False
  then have "r powr 0.5 \<le> r powr 1"
    by (intro powr_mono) simp_all
  with False show ?thesis by simp
qed

lemma pow_half_mono:
  assumes x: "representable x" "Fin 0 \<le> x" and y: "representable y"
    and xy: "realval x \<le> realval y"
  shows "isFinite (Math_pow x (Fin 0.5)) \<and> isFinite (Math_pow y (Fin 0.5)) \<and>
         Math_pow x (Fin 0.5) \<le> Math_pow y (Fin 0.5)"
proof -
  have fx: "isFinite x" "0 \<le> realval x" "\<bar>realval x\<bar> < overflowBound"
    using x by (simp_all add: representable_def finite_nonneg_iff)
  have fy: "isFinite y" "0 \<le> realval y" "\<bar>realval y\<bar> < overflowBound" "Fin 0 \<le> y"
    using y fx(2) xy by (simp_all add: representable_def finite_nonneg_iff)
  have bx: "\<bar>realval x powr 0.5\<bar> < overflowBound"
    using powr_half_bound [OF fx(2)] fx(2,3) ob_gt_one by simp
  have by': "\<bar>realval y powr 0.5\<bar> < overflowBound"
    using powr_half_bound [OF fy(2)] fy(2,3) ob_gt_one by simp
  have m: "realval x powr 0.5 \<le> realval y powr 0.5"
    using fx(2) xy by (intro powr_mono2) simp_all
  show ?thesis
    unfolding pow_half [OF fx(1) x(2)] pow_half [OF fy(1) fy(4)]
    using finiteResult_bounded [OF bx, of False] finiteResult_bounded [OF by', of False]
      finiteResult_mono [OF m, of False False]
    by (simp add: representable_finite)
qed

text \<open>A power with the exponent \<open>2 / 3\<close> is \<open>NaN\<close> or not negative.\<close>

lemma pow_two_thirds_nonneg:
  "isNaN (Math_pow R (Fin 2 / Fin 3)) \<or> Fin 0 \<le> Math_pow R (Fin 2 / Fin 3)"
proof (cases R)
  case (Fin r)
  have "Fin 0 \<le> finiteResult False (r powr (2 / 3))"
    by (rule finiteResult_nonneg) simp
  with Fin show ?thesis
    unfolding two_thirds
    by (simp add: Math_pow_def isInteger_def isOddInteger_def isFinite_def less_number_def
        less_eq_number_def rounded_finiteResult)
qed (simp_all add: two_thirds Math_pow_def isInteger_def isOddInteger_def isFinite_def
      less_number_def less_eq_number_def)

lemma inverse_nonneg: "Fin 0 < n \<Longrightarrow> Fin 0 \<le> Fin 1 / n"
  using finiteResult_nonneg [of "1 / realval n" False]
  by (cases n) (simp_all add: divide_number_def less_number_def signedZero_def
      less_eq_number_def)

text \<open>So Manning's coefficient is not negative when the roughness is positive.\<close>

lemma coef_nonneg:
  assumes "Fin 0 < n" and "isFinite ((Fin 1 / n) * Math_pow R (Fin 2 / Fin 3))"
  shows "Fin 0 \<le> (Fin 1 / n) * Math_pow R (Fin 2 / Fin 3)"
proof -
  have "\<not> isNaN (Math_pow R (Fin 2 / Fin 3))"
    using assms(2) by (auto simp add: isFinite_def times_number_def)
  with pow_two_thirds_nonneg [of R] have "Fin 0 \<le> Math_pow R (Fin 2 / Fin 3)"
    by simp
  from times_nonneg [OF inverse_nonneg [OF assms(1)] this] assms(2) show ?thesis
    by (simp add: isFinite_def)
qed

text \<open>The power of a radius of moderate size below 1 lies between the radius and 1.\<close>

lemma pow_two_thirds_unit:
  assumes "1 / 10 ^ 12 \<le> r" "r \<le> 1"
  shows "\<exists>x. Math_pow (Fin r) (Fin 2 / Fin 3) = Fin x \<and> r \<le> x \<and> x \<le> 1"
proof -
  have r: "0 < r"
    using assms(1) by (smt (verit) divide_pos_pos zero_less_power zero_less_one)
  have "r powr 1 \<le> r powr (2 / 3)"
    using r assms(2) by (intro powr_mono') simp_all
  then have lo: "r \<le> r powr (2 / 3)"
    using r by simp
  have hi: "r powr (2 / 3) \<le> 1"
    using r assms(2) by (simp add: powr_le1)
  have "rounded (r powr (2 / 3)) = Fin (r powr (2 / 3))"
    using lo hi assms(1) by (intro rounded_mid) simp_all
  then show ?thesis
    using r lo hi unfolding two_thirds
    by (simp add: Math_pow_def isInteger_def isOddInteger_def isFinite_def less_number_def)
qed

lemma sin_finite: "isFinite x \<Longrightarrow> isFinite (Math_sin x)"
  by (cases x) (simp_all add: Math_sin_def isFinite_def)

lemma slope_percent:
  assumes "representable s" "Fin 0 \<le> s"
  shows "representable (s / Fin 100) \<and> Fin 0 \<le> s / Fin 100"
proof -
  have s: "isFinite s" "\<bar>realval s\<bar> < overflowBound" "0 \<le> realval s"
    using assms by (simp_all add: representable_def finite_nonneg_iff)
  have e: "s / Fin 100 = finiteResult (signbit s \<noteq> signbit (Fin 100)) (realval s / 100)"
    using divide_finite_eq [OF s(1), of "Fin 100"] by (simp add: isFinite_def)
  have "\<bar>realval s / 100\<bar> < overflowBound" "0 \<le> realval s / 100"
    using s(2,3) by simp_all
  then show ?thesis
    unfolding e
    using finiteResult_bounded [of "realval s / 100"]
      finiteResult_nonneg [of "realval s / 100"] by blast
qed

lemma slope_div:
  assumes "representable s" "Fin 0 \<le> s" "Fin 1 < k"
  shows "representable (s / k) \<and> Fin 0 \<le> s / k \<and> realval (s / k) \<le> realval s"
proof (cases "k = PInf")
  case True
  with assms(1,2) show ?thesis
    using ob_gt_one
    by (cases s) (simp_all add: representable_def isFinite_def divide_number_def signedZero_def
        less_eq_number_def)
next
  case False
  with assms(3) have k: "isFinite k" "\<not> isZero k" "1 < realval k"
    by (cases k; simp add: less_number_def isFinite_def)+
  have s: "isFinite s" "\<bar>realval s\<bar> < overflowBound" "0 \<le> realval s"
    using assms by (simp_all add: representable_def finite_nonneg_iff)
  have e: "s / k = finiteResult (signbit s \<noteq> signbit k) (realval s / realval k)"
    using s(1) k(1,2) by (rule divide_finite_eq)
  have "realval s * 1 \<le> realval s * realval k"
    using s(3) k(3) by (intro mult_left_mono) simp_all
  then have q: "0 \<le> realval s / realval k" "realval s / realval k \<le> realval s"
    using s(3) k(3) by (simp_all add: field_simps)
  then have "\<bar>realval s / realval k\<bar> < overflowBound"
    using s(2,3) by linarith
  from finiteResult_bounded [OF this, of "signbit s \<noteq> signbit k"] q
    finiteResult_nonneg [OF q(1), of "signbit s \<noteq> signbit k"]
  show ?thesis
    unfolding e by (auto simp add: abs_if split: if_splits)
qed

section \<open>Facts about generateMeander\<close>

text \<open>With \<open>totalSteps\<close> zero the loop body runs once, for \<open>i = 0\<close>.\<close>

lemma meanderLoop_zero:
  assumes "isZero ts"
  shows "meanderLoop f ts 0 [] =
           Some (case f 0 of Inl e \<Rightarrow> Inl e | Inr pt \<Rightarrow> Inr [pt])"
proof -
  have a: "Fin (real 0) \<le> ts"
    using assms by (cases ts) (simp_all add: less_eq_number_def)
  have b: "\<not> Fin (real (Suc 0)) \<le> ts"
    using assms by (cases ts) (simp_all add: less_eq_number_def)
  show ?thesis
  proof (cases "f 0")
    case (Inl e)
    then show ?thesis
      by (subst meanderLoop.simps) (simp only: a if_True sum.case)
  next
    case (Inr pt)
    have "meanderLoop f ts (Suc 0) [pt] = Some (Inr [pt])"
      by (subst meanderLoop.simps) (simp only: b if_False)
    with Inr show ?thesis
      by (subst meanderLoop.simps) (simp only: a if_True sum.case append_Nil)
  qed
qed

lemma totalSteps_zero:
  assumes "isZero len" and "\<not> isNaN w" and "isFinite n"
  shows "isZero (Math_ceil ((len / Math_max w (Fin 10)) * n))"
  using assms
  by (cases len; cases w; cases n) (simp_all add: isFinite_def Math_max_def arith_defs)

text \<open>
  So a call with at least two valley points and \<open>totalSteps\<close> zero throws: the
  error of the one step if a library call throws in it, else the constructor's
  error for the one-point list.
\<close>

lemma zero_steps_throw:
  fixes T vps w n a
  defines "axis \<equiv> bezierSpline T (LineString (map (\<lambda>q. [lng q, lat q]) vps))"
  defines "totalSteps \<equiv> Math_ceil ((lengthMeters T axis / Math_max w (Fin 10)) * n)"
  assumes "2 \<le> length vps" and "isZero totalSteps"
  shows "generateMeander T vps a w n =
           Some (Inl (case meanderPoint T axis (lengthMeters T axis) (Math_max w (Fin 10)) a
                             totalSteps 0 of
                        Inl e \<Rightarrow> e
                      | Inr pt \<Rightarrow> tooFewPositions))"
  using assms(3) meanderLoop_zero [OF assms(4)]
  by (auto simp add: generateMeander_def lineString_def Let_def axis_def totalSteps_def
      split: sum.splits)

text \<open>
  For a finite \<open>totalSteps\<close> the loop ends: it has pushed the points of the steps
  \<open>0, ..., \<lfloor>totalSteps\<rfloor>\<close> in order, or has left with the first error. So the call
  returns or throws.
\<close>

lemma meanderLoop_returns:
  assumes "isFinite ts"
  shows "meanderLoop f ts i acc =
           Some (case pointsOfSteps f [i..<nat (\<lfloor>realval ts\<rfloor> + 1)] of
                   Inl e \<Rightarrow> Inl e
                 | Inr pts \<Rightarrow> Inr (acc @ pts))"
  using assms
proof (induction "nat (\<lfloor>realval ts\<rfloor> + 1) - i" arbitrary: i acc)
  case 0
  then have "realval ts < real i"
    by (intro beyond_floor) simp
  with 0 have "\<not> Fin (real i) \<le> ts"
    by (cases ts) (simp_all add: less_eq_number_def isFinite_def)
  then show ?case
    using 0 by (subst meanderLoop.simps) simp
next
  case (Suc k)
  then have lt: "i < nat (\<lfloor>realval ts\<rfloor> + 1)"
    by simp
  then have "real i \<le> realval ts"
    by (rule within_floor)
  with Suc have le: "Fin (real i) \<le> ts"
    by (cases ts) (simp_all add: less_eq_number_def isFinite_def)
  from Suc have k: "k = nat (\<lfloor>realval ts\<rfloor> + 1) - Suc i"
    by simp
  show ?case
  proof (cases "f i")
    case (Inl e)
    with le lt show ?thesis
      by (subst meanderLoop.simps) (simp add: upt_conv_Cons)
  next
    case (Inr pt)
    with Suc(1) [OF k Suc(3), of "acc @ [pt]"] le lt show ?thesis
      by (subst meanderLoop.simps) (simp add: upt_conv_Cons split: sum.splits)
  qed
qed

lemma generateMeander_returns:
  fixes T vps w n a
  defines "axis \<equiv> bezierSpline T (LineString (map (\<lambda>q. [lng q, lat q]) vps))"
  defines "totalSteps \<equiv> Math_ceil ((lengthMeters T axis / Math_max w (Fin 10)) * n)"
  assumes "2 \<le> length vps" and "isFinite totalSteps"
  shows "generateMeander T vps a w n =
           Some (case pointsOfSteps
                        (meanderPoint T axis (lengthMeters T axis) (Math_max w (Fin 10)) a
                           totalSteps)
                        [0..<nat (\<lfloor>realval totalSteps\<rfloor> + 1)] of
                   Inl e \<Rightarrow> Inl e
                 | Inr pts \<Rightarrow> lineString pts)"
  using assms(3) meanderLoop_returns [OF assms(4)]
  by (simp add: generateMeander_def lineString_def Let_def axis_def totalSteps_def
      split: sum.splits)

text \<open>
  For \<open>NaN\<close> and \<open>-Infinity\<close> the body never runs; for \<open>+Infinity\<close> the loop does
  not end unless a step throws.
\<close>

lemma meanderLoop_no_steps:
  assumes "isNaN ts \<or> ts = NInf"
  shows "meanderLoop f ts i acc = Some (Inr acc)"
proof -
  have "\<not> Fin (real i) \<le> ts"
    using assms by (auto simp add: less_eq_number_def)
  then show ?thesis
    by (subst meanderLoop.simps) simp
qed

lemma meanderLoop_Some_not_PInf:
  assumes run: "meanderLoop f ts i acc = Some r"
  shows "(\<forall>k. \<exists>pt. f k = Inr pt) \<longrightarrow> ts \<noteq> PInf"
proof (rule meanderLoop.raw_induct
    [where P = "\<lambda>p t j m r. (\<forall>k. \<exists>pt. p k = Inr pt) \<longrightarrow> t \<noteq> PInf", OF _ run])
  fix loop :: "(nat \<Rightarrow> error + position) \<Rightarrow> number \<Rightarrow> nat \<Rightarrow> position list \<Rightarrow>
               (error + position list) option"
  fix pointAt totalSteps j meanderPoints r
  assume IH: "\<And>p t k m r. loop p t k m = Some r \<Longrightarrow>
                (\<forall>k. \<exists>pt. p k = Inr pt) \<longrightarrow> t \<noteq> PInf"
    and step: "(if Fin (real j) \<le> totalSteps
                then (case pointAt j of
                        Inl e \<Rightarrow> Some (Inl e)
                      | Inr meanderPoint' \<Rightarrow>
                          loop pointAt totalSteps (Suc j) (meanderPoints @ [meanderPoint']))
                else Some (Inr meanderPoints)) = Some r"
  show "(\<forall>k. \<exists>pt. pointAt k = Inr pt) \<longrightarrow> totalSteps \<noteq> PInf"
  proof (cases "Fin (real j) \<le> totalSteps")
    case True
    show ?thesis
    proof
      assume all: "\<forall>k. \<exists>pt. pointAt k = Inr pt"
      then obtain pt where "pointAt j = Inr pt"
        by blast
      with step True have "loop pointAt totalSteps (Suc j) (meanderPoints @ [pt]) = Some r"
        by simp
      from IH [OF this] all show "totalSteps \<noteq> PInf"
        by blast
    qed
  next
    case False
    then show ?thesis
      by (auto simp add: less_eq_number_def)
  qed
qed

lemma meanderLoop_PInf:
  assumes "\<forall>k. \<exists>pt. f k = Inr pt"
  shows "meanderLoop f PInf i acc = None"
proof (cases "meanderLoop f PInf i acc")
  case None
  then show ?thesis .
next
  case (Some r)
  from meanderLoop_Some_not_PInf [OF this] assms show ?thesis
    by blast
qed

text \<open>
  A loop that returns a list has run for a finite \<open>totalSteps\<close>, or not at all.
\<close>

lemma meanderLoop_Inr_not_PInf:
  assumes run: "meanderLoop f ts i acc = Some r"
  shows "(\<exists>pts. r = Inr pts) \<longrightarrow> ts \<noteq> PInf"
proof (rule meanderLoop.raw_induct
    [where P = "\<lambda>p t j m r. (\<exists>pts. r = Inr pts) \<longrightarrow> t \<noteq> PInf", OF _ run])
  fix loop :: "(nat \<Rightarrow> error + position) \<Rightarrow> number \<Rightarrow> nat \<Rightarrow> position list \<Rightarrow>
               (error + position list) option"
  fix pointAt totalSteps j meanderPoints r
  assume IH: "\<And>p t k m r. loop p t k m = Some r \<Longrightarrow> (\<exists>pts. r = Inr pts) \<longrightarrow> t \<noteq> PInf"
    and step: "(if Fin (real j) \<le> totalSteps
                then (case pointAt j of
                        Inl e \<Rightarrow> Some (Inl e)
                      | Inr meanderPoint' \<Rightarrow>
                          loop pointAt totalSteps (Suc j) (meanderPoints @ [meanderPoint']))
                else Some (Inr meanderPoints)) = Some r"
  show "(\<exists>pts. r = Inr pts) \<longrightarrow> totalSteps \<noteq> PInf"
  proof (cases "Fin (real j) \<le> totalSteps")
    case True
    show ?thesis
    proof (cases "pointAt j")
      case (Inl e)
      with step True show ?thesis by auto
    next
      case (Inr pt)
      with step True have "loop pointAt totalSteps (Suc j) (meanderPoints @ [pt]) = Some r"
        by simp
      from IH [OF this] show ?thesis .
    qed
  next
    case False
    then show ?thesis
      by (auto simp add: less_eq_number_def)
  qed
qed

lemma pointsOfSteps_length:
  "pointsOfSteps f steps = Inr pts \<Longrightarrow> length pts = length steps"
  by (induction steps arbitrary: pts) (auto split: sum.splits)

text \<open>
  So a call that returns a path had at least two valley points and a finite
  \<open>totalSteps\<close>, and the path is made of the points of the steps
  \<open>0, ..., \<lfloor>totalSteps\<rfloor>\<close>, which are at least two.
\<close>

lemma generateMeander_Inr:
  fixes T vps w n a
  defines "axis \<equiv> bezierSpline T (LineString (map (\<lambda>q. [lng q, lat q]) vps))"
  defines "totalSteps \<equiv> Math_ceil ((lengthMeters T axis / Math_max w (Fin 10)) * n)"
  assumes ret: "generateMeander T vps a w n = Some (Inr path)"
  shows "2 \<le> length vps \<and> isFinite totalSteps \<and>
         pointsOfSteps
           (meanderPoint T axis (lengthMeters T axis) (Math_max w (Fin 10)) a totalSteps)
           [0..<nat (\<lfloor>realval totalSteps\<rfloor> + 1)] = Inr (lineCoordinates path) \<and>
         length (lineCoordinates path) = nat (\<lfloor>realval totalSteps\<rfloor> + 1) \<and>
         2 \<le> length (lineCoordinates path)"
proof -
  let ?f = "meanderPoint T axis (lengthMeters T axis) (Math_max w (Fin 10)) a totalSteps"
  have l: "2 \<le> length vps"
    using ret by (cases "length vps < 2") (simp_all add: generateMeander_def lineString_def)
  from ret l obtain pts where
    loop: "meanderLoop ?f totalSteps 0 [] = Some (Inr pts)" and
    ls: "lineString pts = Inr path"
    by (auto simp add: generateMeander_def lineString_def Let_def axis_def totalSteps_def
        split: option.splits sum.splits if_splits)
  from ls have p: "2 \<le> length pts" "lineCoordinates path = pts"
    by (auto simp add: lineString_def split: if_splits)
  have np: "totalSteps \<noteq> PInf"
    using meanderLoop_Inr_not_PInf [OF loop] by simp
  have nn: "\<not> (isNaN totalSteps \<or> totalSteps = NInf)"
  proof
    assume "isNaN totalSteps \<or> totalSteps = NInf"
    from meanderLoop_no_steps [OF this, of ?f 0 "[]"] loop p(1) show False
      by simp
  qed
  from np nn have fin: "isFinite totalSteps"
    by (cases totalSteps) (simp_all add: isFinite_def)
  from meanderLoop_returns [OF fin, of ?f 0 "[]"] loop
  have pos: "pointsOfSteps ?f [0..<nat (\<lfloor>realval totalSteps\<rfloor> + 1)] = Inr pts"
    by (simp split: sum.splits)
  from pointsOfSteps_length [OF pos] have "length pts = nat (\<lfloor>realval totalSteps\<rfloor> + 1)"
    by simp
  with l fin pos p show ?thesis
    by simp
qed

text \<open>
  With an amplitude of zero every offset is a zero: the point of step \<open>i\<close> is the
  library's destination at distance 0 from the axis point of that step.
\<close>

lemma fraction_unit:
  assumes "isFinite ts" "Fin 0 < ts" "real i \<le> realval ts"
  shows "\<exists>f. stepFraction i ts = Fin f \<and> 0 \<le> f \<and> f \<le> 1"
proof (cases ts)
  case (Fin t)
  with assms have t: "0 < t" "real i \<le> t"
    by (simp_all add: less_number_def)
  then have q: "0 \<le> real i / t" "real i / t \<le> 1"
    by simp_all
  from rounded_unit [OF q] t show ?thesis
    using Fin by (auto simp add: stepFraction_def divide_number_def finiteResult_def
        signedZero_def)
qed (use assms in \<open>simp_all add: isFinite_def less_number_def\<close>)

lemma dampening_nonneg:
  assumes "0 \<le> f" "f \<le> 1"
  shows "\<exists>x\<ge>0. Math_pow (Math_sin (Fin f * Math_PI)) (Fin 0.2) = Fin x"
proof -
  have b: "0 \<le> f * pi" "f * pi \<le> pi"
    using assms by (simp_all add: mult_left_le_one_le)
  have "f * pi < overflowBound"
    using b(2) pi_less_4 ob_gt_four by linarith
  then have "\<bar>f * pi\<bar> < overflowBound"
    using b(1) by simp
  from finiteResult_bounded [OF this, of "f < 0"] b
  have "isFinite (finiteResult (f < 0) (f * pi))"
    "0 \<le> realval (finiteResult (f < 0) (f * pi))"
    "realval (finiteResult (f < 0) (f * pi)) \<le> pi"
    by (auto simp only: representable_finite abs_le_iff)
  moreover have "Fin f * Math_PI = finiteResult (f < 0) (f * pi)"
    by (simp add: Math_PI_def times_number_def)
  ultimately have g: "isFinite (Fin f * Math_PI)" "0 \<le> realval (Fin f * Math_PI)"
    "realval (Fin f * Math_PI) \<le> pi"
    by simp_all
  then have s: "0 \<le> sin (realval (Fin f * Math_PI))"
    by (intro sin_ge_zero)
  have s1: "sin (realval (Fin f * Math_PI)) \<le> 1"
    by simp
  show ?thesis
  proof (cases "Fin f * Math_PI")
    case (Fin y)
    show ?thesis
    proof (cases "sin y = 0")
      case True
      with Fin show ?thesis
        by (simp add: Math_sin_def Math_pow_def less_number_def)
    next
      case False
      with s Fin have p: "0 < sin y" by simp
      then have "0 \<le> sin y powr 0.2" "sin y powr 0.2 \<le> 1"
        by (simp_all add: powr_le1)
      from rounded_unit [OF this] p Fin show ?thesis
        by (auto simp add: Math_sin_def Math_pow_def isInteger_def isOddInteger_def
            isFinite_def less_number_def)
    qed
  next
    case NZero
    then show ?thesis
      by (simp add: Math_sin_def Math_pow_def isInteger_def isOddInteger_def isFinite_def
          less_number_def)
  qed (use g(1) in \<open>simp_all add: isFinite_def\<close>)
qed

lemma wave_number:
  assumes "Fin 10 \<le> sw"
  shows "isFinite (Fin 2 * Math_PI / sw) \<and> \<bar>realval (Fin 2 * Math_PI / sw)\<bar> \<le> 1"
proof -
  have p: "1 / 10 ^ 12 \<le> \<bar>2 * pi\<bar>" "\<bar>2 * pi\<bar> \<le> 10 ^ 12"
    using pi_ge_two pi_less_4 by simp_all
  have two_pi: "Fin 2 * Math_PI = Fin (2 * pi)"
    using rounded_mid [OF p] by (simp add: Math_PI_def times_number_def finiteResult_def)
  show ?thesis
  proof (cases sw)
    case (Fin s)
    with assms have s: "10 \<le> s"
      by (simp add: less_eq_number_def)
    then have q: "\<bar>2 * pi / s\<bar> \<le> 1"
      using pi_less_4 by (simp add: field_simps)
    then have "\<bar>2 * pi / s\<bar> < overflowBound"
      using ob_gt_one by linarith
    from finiteResult_bounded [OF this, of False]
    have "representable (finiteResult False (2 * pi / s))"
      "\<bar>realval (finiteResult False (2 * pi / s))\<bar> \<le> \<bar>2 * pi / s\<bar>"
      by blast+
    then have "isFinite (finiteResult False (2 * pi / s))"
      "\<bar>realval (finiteResult False (2 * pi / s))\<bar> \<le> 1"
      using q by (simp_all only: representable_finite order_trans [OF _ q])
    moreover have "Fin 2 * Math_PI / sw = finiteResult False (2 * pi / s)"
      using s Fin unfolding two_pi by (simp add: divide_number_def)
    ultimately show ?thesis by simp
  qed (use assms in \<open>simp_all add: two_pi divide_number_def less_eq_number_def isFinite_def
        signedZero_def\<close>)
qed

lemma meanderPoint_zero_amplitude:
  assumes a: "isZero a"
    and ts: "isFinite ts" "Fin 0 < ts" "real i \<le> realval ts"
    and len: "representable len"
    and sw: "Fin 10 \<le> sw"
  shows "meanderPoint T axis len sw a ts i = axisSample T axis len ts i"
proof -
  from fraction_unit [OF ts] obtain f where f: "stepFraction i ts = Fin f" "0 \<le> f" "f \<le> 1"
    by blast
  from dampening_nonneg [OF f(2,3)] obtain x where
    x: "0 \<le> x" "Math_pow (Math_sin (Fin f * Math_PI)) (Fin 0.2) = Fin x"
    by blast
  have fin: "isFinite (Fin x)" "isFinite (Fin f)" "\<bar>realval (Fin f)\<bar> \<le> 1"
    using f(2,3) by (simp_all add: isFinite_def)
  have amp: "isZero (a * Fin x)"
    using a fin(1) by (rule zero_times_finite)
  have dist: "representable (Fin f * len)"
    using unit_times_representable [OF fin(2,3) len] by simp
  have "representable (Fin 2 * Math_PI / sw * (Fin f * len))"
    using unit_times_representable [OF _ _ dist] wave_number [OF sw] by simp
  then have "isFinite (Math_sin (Fin 2 * Math_PI / sw * (Fin f * len)))"
    by (intro sin_finite representable_finite)
  with amp have "isZero (a * Fin x * Math_sin (Fin 2 * Math_PI / sw * (Fin f * len)))"
    by (rule zero_times_finite)
  from abs_zero [OF this] show ?thesis
    unfolding meanderPoint_def axisSample_def Let_def f(1) x(2) by (simp split: sum.splits)
qed

lemma pointsOfSteps_cong:
  "(\<And>i. i \<in> set steps \<Longrightarrow> f i = g i) \<Longrightarrow> pointsOfSteps f steps = pointsOfSteps g steps"
  by (induction steps) (auto split: sum.splits)

text \<open>
  So, for a finite positive \<open>totalSteps\<close> and an axis of representable length, a
  call with an amplitude of zero returns the samples of the axis, or throws the
  first error of a library call.
\<close>

lemma generateMeander_zero_amplitude:
  fixes T vps w n a
  defines "axis \<equiv> bezierSpline T (LineString (map (\<lambda>q. [lng q, lat q]) vps))"
  defines "totalSteps \<equiv> Math_ceil ((lengthMeters T axis / Math_max w (Fin 10)) * n)"
  assumes l: "2 \<le> length vps" and a: "isZero a"
    and ts: "isFinite totalSteps" "Fin 0 < totalSteps"
    and len: "representable (lengthMeters T axis)"
  shows "generateMeander T vps a w n =
           Some (case pointsOfSteps (axisSample T axis (lengthMeters T axis) totalSteps)
                        [0..<nat (\<lfloor>realval totalSteps\<rfloor> + 1)] of
                   Inl e \<Rightarrow> Inl e
                 | Inr pts \<Rightarrow> Inr (LineString pts))"
proof -
  let ?k = "nat (\<lfloor>realval totalSteps\<rfloor> + 1)"
  have w: "\<not> isNaN w"
  proof
    assume "isNaN w"
    then have "totalSteps = NaN"
      by (simp add: totalSteps_def safeWavelength_NaN divide_number_def times_number_def)
    with ts(1) show False by (simp add: isFinite_def)
  qed
  have sw: "Fin 10 \<le> Math_max w (Fin 10)"
    using w by (rule safeWavelength_floor)
  have one: "1 \<le> realval totalSteps"
    using ts unfolding totalSteps_def by (intro ceil_pos)
  then have k: "2 \<le> ?k"
    by (simp add: le_nat_iff le_floor_iff)
  have eq: "pointsOfSteps
              (meanderPoint T axis (lengthMeters T axis) (Math_max w (Fin 10)) a totalSteps)
              [0..<?k] =
            pointsOfSteps (axisSample T axis (lengthMeters T axis) totalSteps) [0..<?k]"
  proof (rule pointsOfSteps_cong)
    fix i assume "i \<in> set [0..<?k]"
    then have "i < ?k" by simp
    then have "real i \<le> realval totalSteps"
      by (rule within_floor)
    from meanderPoint_zero_amplitude [OF a ts(1,2) this len sw]
    show "meanderPoint T axis (lengthMeters T axis) (Math_max w (Fin 10)) a totalSteps i =
          axisSample T axis (lengthMeters T axis) totalSteps i" .
  qed
  have ls: "\<And>pts. pointsOfSteps (axisSample T axis (lengthMeters T axis) totalSteps) [0..<?k]
              = Inr pts \<Longrightarrow> lineString pts = Inr (LineString pts)"
    using pointsOfSteps_length k by (fastforce simp add: lineString_def)
  from generateMeander_returns [OF l ts(1) [unfolded totalSteps_def axis_def], of a]
  show ?thesis
    unfolding eq [unfolded totalSteps_def axis_def] axis_def totalSteps_def
    using ls [unfolded totalSteps_def axis_def]
    by (auto split: sum.splits)
qed

section \<open>Facts about calculateHydraulics\<close>

text \<open>The call returns exactly when the valley line has at least two points.\<close>

lemma calc_Inr:
  "calculateHydraulics T p g = Inr m \<Longrightarrow>
   2 \<le> length (valleyLine p) \<and>
   m = hydraulicsFromLengths p
         (lengthMeters T (LineString (map (\<lambda>q. [lng q, lat q]) (valleyLine p))))
         (lengthMeters T g)"
  by (auto simp add: calculateHydraulics_def lineString_def Let_def split: if_splits)

lemma calc_returns:
  "2 \<le> length (valleyLine p) \<Longrightarrow>
   calculateHydraulics T p g =
     Inr (hydraulicsFromLengths p
            (lengthMeters T (LineString (map (\<lambda>q. [lng q, lat q]) (valleyLine p))))
            (lengthMeters T g))"
  by (simp add: calculateHydraulics_def lineString_def Let_def)

lemma si_hyd:
  "sinuosityIndex (hydraulicsFromLengths p vl cl) =
     (if Fin 0 < vl then Math_max (Fin 1) (cl / vl) else Fin 1)"
  by (simp add: hydraulicsFromLengths_def Let_def)

lemma lengths_hyd:
  "valleyLength (hydraulicsFromLengths p vl cl) = vl \<and>
   channelLength (hydraulicsFromLengths p vl cl) = cl"
  by (simp add: hydraulicsFromLengths_def Let_def)

text \<open>A channel measured as 0 gives a sinuosity index of exactly 1.\<close>

lemma si_zero_channel:
  assumes "isZero cl"
  shows "sinuosityIndex (hydraulicsFromLengths p vl cl) = Fin 1"
  using assms
  by (cases cl; cases vl) (simp_all add: si_hyd Math_max_def arith_defs)

lemma si_NaN_iff:
  "isNaN (sinuosityIndex (hydraulicsFromLengths p vl cl)) \<longleftrightarrow> Fin 0 < vl \<and> isNaN (cl / vl)"
  by (simp add: si_hyd Math_max_one_NaN)

lemma si_NaN_or_ge:
  "isNaN (sinuosityIndex (hydraulicsFromLengths p vl cl)) \<or>
   Fin 1 \<le> sinuosityIndex (hydraulicsFromLengths p vl cl)"
  using Math_max_one_ge [of "cl / vl"]
  by (auto simp add: si_hyd Math_max_one_NaN less_eq_number_def)

lemma originalSlope_hyd:
  "originalSlope (hydraulicsFromLengths p vl cl) = valleySlope p / Fin 100"
  by (simp add: hydraulicsFromLengths_def Let_def)

lemma newSlope_hyd:
  "newSlope (hydraulicsFromLengths p vl cl) =
     (if Fin 0 < sinuosityIndex (hydraulicsFromLengths p vl cl)
      then originalSlope (hydraulicsFromLengths p vl cl) /
           sinuosityIndex (hydraulicsFromLengths p vl cl)
      else originalSlope (hydraulicsFromLengths p vl cl))"
  by (simp add: hydraulicsFromLengths_def Let_def)

lemma shear_hyd:
  "shearStress (hydraulicsFromLengths p vl cl) =
     Fin 1000 * Fin 9.81 *
       ((bankfullWidth p * bankfullDepth p) / (bankfullWidth p + Fin 2 * bankfullDepth p)) *
       newSlope (hydraulicsFromLengths p vl cl)"
  by (simp add: hydraulicsFromLengths_def Let_def)

lemma vel_hyd:
  "originalVelocity (hydraulicsFromLengths p vl cl) =
     calculateVelocity p
       ((bankfullWidth p * bankfullDepth p) / (bankfullWidth p + Fin 2 * bankfullDepth p))
       (originalSlope (hydraulicsFromLengths p vl cl)) \<and>
   newVelocity (hydraulicsFromLengths p vl cl) =
     calculateVelocity p
       ((bankfullWidth p * bankfullDepth p) / (bankfullWidth p + Fin 2 * bankfullDepth p))
       (newSlope (hydraulicsFromLengths p vl cl))"
  by (simp add: hydraulicsFromLengths_def Let_def)

text \<open>The sinuosity index is exactly 1 where the quotient of the lengths is at most 1.\<close>

lemma si_one_iff:
  "sinuosityIndex (hydraulicsFromLengths p vl cl) = Fin 1 \<longleftrightarrow>
     \<not> Fin 0 < vl \<or> cl / vl \<le> Fin 1"
  by (simp add: si_hyd Math_max_one_eq)

lemma si_short:
  assumes "Fin 0 \<le> cl" "cl < vl"
  shows "sinuosityIndex (hydraulicsFromLengths p vl cl) = Fin 1"
  using div_lt_one [OF assms] by (simp add: si_one_iff)

text \<open>The new slope is \<open>NaN\<close> or lies between 0 and the original slope.\<close>

lemma newSlope_bounds:
  assumes "Fin 0 < originalSlope (hydraulicsFromLengths p vl cl)"
  shows "isNaN (newSlope (hydraulicsFromLengths p vl cl)) \<or>
         (Fin 0 \<le> newSlope (hydraulicsFromLengths p vl cl) \<and>
          newSlope (hydraulicsFromLengths p vl cl) \<le> originalSlope (hydraulicsFromLengths p vl cl))"
proof (cases "Fin 0 < sinuosityIndex (hydraulicsFromLengths p vl cl)")
  case True
  then have ge: "Fin 1 \<le> sinuosityIndex (hydraulicsFromLengths p vl cl)"
    using si_NaN_or_ge [of p vl cl] lt_not_NaN by blast
  have "isInf (originalSlope (hydraulicsFromLengths p vl cl)) \<or>
        representable (originalSlope (hydraulicsFromLengths p vl cl))"
    using quotient_ranged [of "valleySlope p" "Fin 100"] lt_not_NaN [OF assms]
    by (simp add: originalSlope_hyd)
  from div_ge_one [OF assms this ge] True show ?thesis
    by (simp add: newSlope_hyd)
next
  case False
  then have "newSlope (hydraulicsFromLengths p vl cl) = originalSlope (hydraulicsFromLengths p vl cl)"
    by (simp add: newSlope_hyd)
  with pos_le_self [OF assms] show ?thesis by simp
qed

text \<open>
  The stress ratio of the metrics that \<open>calculateHydraulics\<close> computes, taken with
  the same parameters: the fallback 1, or the quotient of two products with the
  same factor, which is \<open>NaN\<close> or at most 1.
\<close>

lemma stressRatio_hyd:
  "(\<not> Fin 0 < originalSlope (hydraulicsFromLengths p vl cl) \<longrightarrow>
      stressRatio (hydraulicsFromLengths p vl cl) p = Fin 1) \<and>
   (isNaN (stressRatio (hydraulicsFromLengths p vl cl) p) \<or>
    stressRatio (hydraulicsFromLengths p vl cl) p \<le> Fin 1)"
proof (cases "Fin 0 < originalSlope (hydraulicsFromLengths p vl cl)")
  case True
  from ratio_bound [OF True newSlope_bounds [OF True]] True show ?thesis
    by (simp add: stressRatio_def shear_hyd)
next
  case False
  then have "stressRatio (hydraulicsFromLengths p vl cl) p = Fin 1"
    by (simp add: stressRatio_def)
  then show ?thesis
    using False by (simp add: less_eq_number_def)
qed

lemma not_above: "isNaN x \<or> x \<le> Fin 1 \<Longrightarrow> \<not> Fin 1 < x \<and> \<not> Fin 1.2 < x"
  by (cases x) (simp_all add: less_number_def less_eq_number_def)

text \<open>
  Manning's velocity is monotone in the slope when the roughness is positive and
  the coefficient \<open>(1 / n) * R^(2/3)\<close> is finite.
\<close>

lemma velocity_mono:
  assumes n: "Fin 0 < manningsN p"
    and c: "isFinite ((Fin 1 / manningsN p) * Math_pow R (Fin 2 / Fin 3))"
    and x: "representable x" "Fin 0 \<le> x"
    and y: "representable y"
    and xy: "realval x \<le> realval y"
  shows "calculateVelocity p R x \<le> calculateVelocity p R y"
proof -
  from pow_half_mono [OF x y xy]
  have h: "isFinite (Math_pow x (Fin 0.5))" "isFinite (Math_pow y (Fin 0.5))"
    "Math_pow x (Fin 0.5) \<le> Math_pow y (Fin 0.5)"
    by simp_all
  from times_mono [OF c coef_nonneg [OF n c] h] show ?thesis
    unfolding calculateVelocity_def .
qed

text \<open>
  With a negative roughness it is strictly antitone (stated for values of moderate
  size, where no product leaves the range).
\<close>

lemma velocity_anti:
  assumes n: "manningsN p = Fin n" "- 1000 \<le> n" "n \<le> - (1 / 1000)"
    and r: "1 / 2 \<le> r" "r \<le> 1"
    and x: "1 / 10 ^ 6 \<le> x" "x < y" "y \<le> 1"
  shows "\<not> calculateVelocity p (Fin r) (Fin x) \<le> calculateVelocity p (Fin r) (Fin y)"
proof -
  have "1 / 10 ^ 12 \<le> r"
    using r(1) by simp
  from pow_two_thirds_unit [OF this r(2)] r(1) obtain q where
    q: "Math_pow (Fin r) (Fin 2 / Fin 3) = Fin q" "1 / 2 \<le> q" "q \<le> 1"
    by fastforce
  have i: "1 / 1000 \<le> \<bar>1 / n\<bar>" "\<bar>1 / n\<bar> \<le> 1000"
    using n(2,3) by (simp_all add: abs_if field_simps)
  have inv: "Fin 1 / Fin n = Fin (1 / n)"
    using n(3) rounded_mid [of "1 / n"] i by (simp add: divide_number_def finiteResult_def)
  define c where "c = (1 / n) * q"
  have cneg: "c < 0"
    using n(3) q(2) by (simp add: c_def field_simps mult_pos_neg)
  have "\<bar>c\<bar> = \<bar>1 / n\<bar> * q"
    using q(2) by (simp add: c_def abs_mult)
  then have cb: "1 / 2000 \<le> \<bar>c\<bar>" "\<bar>c\<bar> \<le> 1000"
    using i q(2,3) mult_mono [of "1 / 1000" "\<bar>1 / n\<bar>" "1 / 2" q]
      mult_mono [of "\<bar>1 / n\<bar>" 1000 q 1]
    by simp_all
  have "rounded c = Fin c"
    using cb by (intro rounded_mid) simp_all
  then have e: "\<And>s. finiteResult s c = Fin c"
    using cneg by (simp add: finiteResult_def)
  have "Fin (1 / n) * Fin q = finiteResult (signbit (Fin (1 / n)) \<noteq> signbit (Fin q)) c"
    unfolding c_def by (simp add: times_number_def)
  then have coef: "(Fin 1 / Fin n) * Fin q = Fin c"
    unfolding inv e .
  have root: "Math_pow (Fin z) (Fin 0.5) = Fin (z powr 0.5) \<and>
              1 / 10 ^ 6 \<le> z powr 0.5 \<and> z powr 0.5 \<le> 1"
    if z: "1 / 10 ^ 6 \<le> z" "z \<le> 1" for z :: real
  proof -
    have pos: "0 < z"
      using z(1) by (smt (verit) divide_pos_pos zero_less_power zero_less_one)
    have "z powr 1 \<le> z powr 0.5"
      using pos z(2) by (intro powr_mono') simp_all
    then have lo: "1 / 10 ^ 6 \<le> z powr 0.5"
      using z(1) pos by simp
    have hi: "z powr 0.5 \<le> 1"
      using pos z(2) by (simp add: powr_le1)
    have "rounded (z powr 0.5) = Fin (z powr 0.5)"
      using lo hi by (intro rounded_mid) simp_all
    then have "finiteResult False (z powr 0.5) = Fin (z powr 0.5)"
      using lo by (simp add: rounded_finiteResult [symmetric])
    moreover have "Math_pow (Fin z) (Fin 0.5) = finiteResult False (z powr 0.5)"
      using pow_half [of "Fin z"] pos by (simp add: isFinite_def less_eq_number_def)
    ultimately show ?thesis
      using lo hi by simp
  qed
  have prod: "Fin c * Fin s = Fin (c * s)"
    if s: "1 / 10 ^ 6 \<le> s" "s \<le> 1" for s :: real
  proof -
    have pos: "0 < s"
      using s(1) by (smt (verit) divide_pos_pos zero_less_power zero_less_one)
    have "\<bar>c * s\<bar> = \<bar>c\<bar> * s"
      using pos by (simp add: abs_mult)
    then have "1 / 10 ^ 12 \<le> \<bar>c * s\<bar>" "\<bar>c * s\<bar> \<le> 10 ^ 12"
      using cb s mult_mono [of "1 / 2000" "\<bar>c\<bar>" "1 / 10 ^ 6" s] mult_mono [of "\<bar>c\<bar>" 1000 s 1]
      by simp_all
    from rounded_mid [OF this] cneg pos show ?thesis
      by (simp add: times_number_def finiteResult_def)
  qed
  have xs: "1 / 10 ^ 6 \<le> x" "x \<le> 1" and ys: "1 / 10 ^ 6 \<le> y" "y \<le> 1"
    using x by simp_all
  have "x powr 0.5 < y powr 0.5"
    using x(1,2) by (intro powr_less_mono2) simp_all
  then have "c * y powr 0.5 < c * x powr 0.5"
    using cneg by (simp add: mult_less_cancel_left)
  then have "\<not> Fin (c * x powr 0.5) \<le> Fin (c * y powr 0.5)"
    by (simp add: less_eq_number_def)
  then show ?thesis
    using root [OF xs] root [OF ys]
    unfolding calculateVelocity_def n(1) q(1) coef
    by (simp add: prod)
qed

section \<open>Facts about assessEcologicalHealth\<close>

lemma health_assessWithRatio:
  "health (assessWithRatio r m p) =
     (if r < Fin 2.0 \<and> Fin 1.05 < sinuosityIndex m then HIGH_RISK
      else if sinuosityIndex m < Fin 1.2 then DEGRADED
      else if Fin 1.2 < sinuosityIndex m \<and> sinuosityIndex m < Fin 1.5 then RECOVERING
      else STABLE)"
  by (simp add: assessWithRatio_def Let_def)

lemma warnings_assessWithRatio:
  "warnings (assessWithRatio r m p) =
     (if r < Fin 2.0 \<and> Fin 1.05 < sinuosityIndex m then [avulsionWarning m p r]
      else if sinuosityIndex m < Fin 1.2 then [straightenedWarning]
      else [])"
  by (simp add: assessWithRatio_def Let_def)

lemma assessWithRatio_not_tight:
  "\<not> r < Fin 2.0 \<Longrightarrow> \<not> r' < Fin 2.0 \<Longrightarrow> assessWithRatio r m p = assessWithRatio r' m p"
  by (simp add: assessWithRatio_def Let_def)

lemma sediment_assess:
  "sedimentTransport (stats (assessEcologicalHealth m p)) =
     (if Fin 1.2 < stressRatio m p then ''Degradation (Scour)''
      else if stressRatio m p < Fin 0.6 then ''Aggradation (Deposition)''
      else ''Equilibrium'')"
  by (simp add: assessEcologicalHealth_def assessWithRatio_def Let_def)

section \<open>The examples, evaluated\<close>

lemmas eval_defs = arith_defs rounded_mid

lemma calc_example:
  "calculateHydraulics (stubTurf examplePath (Fin 1200) (Fin 894)) INITIAL_PARAMS examplePath =
     Inr (hydraulicsFromLengths INITIAL_PARAMS (Fin 894) (Fin 1200))"
  by (simp add: calculateHydraulics_def lineString_def INITIAL_PARAMS_def stubTurf_def
      examplePath_def Let_def)

lemma calc_zero_example:
  "calculateHydraulics (stubTurf examplePath (Fin 1200) (Fin 0)) INITIAL_PARAMS examplePath =
     Inr (hydraulicsFromLengths INITIAL_PARAMS (Fin 0) (Fin 1200))"
  by (simp add: calculateHydraulics_def lineString_def INITIAL_PARAMS_def stubTurf_def
      examplePath_def Let_def)

lemma calc_nan_example:
  "calculateHydraulics (stubTurf nanPath NaN (Fin 894)) INITIAL_PARAMS nanPath =
     Inr (hydraulicsFromLengths INITIAL_PARAMS (Fin 894) NaN)"
  by (simp add: calculateHydraulics_def lineString_def INITIAL_PARAMS_def stubTurf_def
      nanPath_def Let_def)

lemma calc_params_example:
  "valleyLine p = valleyLine INITIAL_PARAMS \<Longrightarrow>
   calculateHydraulics (stubTurf examplePath (Fin 1200) (Fin 894)) p examplePath =
     Inr (hydraulicsFromLengths p (Fin 894) (Fin 1200))"
  by (simp add: calculateHydraulics_def lineString_def INITIAL_PARAMS_def stubTurf_def
      examplePath_def Let_def)

lemma si_example:
  "sinuosityIndex (hydraulicsFromLengths p (Fin 894) (Fin 1200)) = Fin (1200 / 894)"
  by (simp add: si_hyd Math_max_def eval_defs)

lemma si_nan_example:
  "sinuosityIndex (hydraulicsFromLengths p (Fin 894) NaN) = NaN"
  by (simp add: si_hyd Math_max_def eval_defs)

lemma slopes_example:
  "valleySlope p = Fin 2.5 \<Longrightarrow>
   originalSlope (hydraulicsFromLengths p (Fin 894) (Fin 1200)) = Fin 0.025 \<and>
   newSlope (hydraulicsFromLengths p (Fin 894) (Fin 1200)) = Fin (0.025 * 894 / 1200)"
  by (simp add: newSlope_hyd si_example originalSlope_hyd eval_defs)

lemma slopes_nan_example:
  "valleySlope p = Fin 2.5 \<Longrightarrow>
   originalSlope (hydraulicsFromLengths p (Fin 894) NaN) = Fin 0.025 \<and>
   newSlope (hydraulicsFromLengths p (Fin 894) NaN) = Fin 0.025"
  by (simp add: newSlope_hyd si_nan_example originalSlope_hyd eval_defs)

lemma slopes_zero_example:
  "valleySlope p = Fin 0 \<Longrightarrow>
   originalSlope (hydraulicsFromLengths p (Fin 894) (Fin 1200)) = Fin 0 \<and>
   newSlope (hydraulicsFromLengths p (Fin 894) (Fin 1200)) = Fin 0"
  by (simp add: newSlope_hyd si_example originalSlope_hyd eval_defs)

lemma radius_example:
  "(bankfullWidth INITIAL_PARAMS * bankfullDepth INITIAL_PARAMS) /
   (bankfullWidth INITIAL_PARAMS + Fin 2 * bankfullDepth INITIAL_PARAMS) = Fin (12 / 13)"
  by (simp add: INITIAL_PARAMS_def eval_defs)

text \<open>Manning's coefficient of the initial parameters is finite.\<close>

lemma coefficient_example:
  "isFinite ((Fin 1 / manningsN INITIAL_PARAMS) * Math_pow (Fin (12 / 13)) (Fin 2 / Fin 3))"
proof -
  from pow_two_thirds_unit [of "12 / 13"] obtain q where
    q: "Math_pow (Fin (12 / 13)) (Fin 2 / Fin 3) = Fin q" "12 / 13 \<le> q" "q \<le> 1"
    by auto
  have "\<bar>(1000 / 45) * q\<bar> < overflowBound"
    using q(2,3) ob_big by (simp add: abs_if)
  then have "\<And>s. isFinite (finiteResult s ((1000 / 45) * q))"
    using finiteResult_bounded representable_finite by blast
  moreover have "Fin 1 / manningsN INITIAL_PARAMS = Fin (1000 / 45)"
    by (simp add: INITIAL_PARAMS_def eval_defs)
  ultimately show ?thesis
    unfolding q(1) by (simp add: times_number_def)
qed

text \<open>
  With a roughness of \<open>1e-320\<close> the factor \<open>1 / n\<close> overflows, and with a valley slope
  of 0 both velocities are \<open>Infinity * 0 = NaN\<close>.
\<close>

lemma overflow_example:
  assumes "manningsN p = Fin (1 / 10 ^ 320)"
  shows "calculateVelocity p (Fin (12 / 13)) (Fin 0) = NaN"
proof -
  from pow_two_thirds_unit [of "12 / 13"] obtain q where
    q: "Math_pow (Fin (12 / 13)) (Fin 2 / Fin 3) = Fin q" "12 / 13 \<le> q" "q \<le> 1"
    by auto
  have "overflowBound \<le> 10 ^ 320"
    by (simp add: overflowBound_def)
  then have "Fin 1 / Fin (1 / 10 ^ 320) = PInf"
    by (simp add: divide_number_def finiteResult_def rounded_def infinity_def)
  moreover have "Math_pow (Fin 0) (Fin 0.5) = Fin 0"
    by (simp add: Math_pow_def less_number_def)
  ultimately show ?thesis
    using q(2) unfolding calculateVelocity_def assms q(1)
    by (simp add: times_number_def infinity_def)
qed

text \<open>With a depth of 0 the hydraulic radius is 0 and the stress ratio is \<open>0 / 0\<close>.\<close>

lemma zero_depth_example:
  assumes "bankfullWidth p = Fin 8" "bankfullDepth p = Fin 0" "valleySlope p = Fin 2.5"
  shows "stressRatio (hydraulicsFromLengths p (Fin 894) (Fin 1200)) p = NaN"
proof -
  have "(bankfullWidth p * bankfullDepth p) / (bankfullWidth p + Fin 2 * bankfullDepth p) = Fin 0"
    using assms by (simp add: eval_defs)
  then show ?thesis
    using slopes_example [OF assms(3)]
    by (simp add: stressRatio_def shear_hyd eval_defs)
qed

subsection \<open>On the flat map\<close>

lemma sqrt_25: "sqrt 25 = 5"
  by (rule real_sqrt_unique) simp_all

lemma sqrt_36: "sqrt 36 = 6"
  by (rule real_sqrt_unique) simp_all

lemma sqrt_100: "sqrt 100 = 10"
  by (rule real_sqrt_unique) simp_all

lemmas plane_defs = planePoint_def planePosition_def planeDistance_def planeMove_def
  sqrt_25 sqrt_36 sqrt_100

lemma plus_Fin_not_NaN: "\<not> isNaN x \<Longrightarrow> \<not> isNaN (x + Fin y)"
  by (cases x) (simp_all add: plus_number_def finiteResult_not_NaN)

text \<open>On the map a sample of the axis is the point that \<open>along\<close> finds.\<close>

lemma plane_axisSample:
  assumes "\<not> isNaN (stepFraction i ts * len)"
    and "\<not> isNaN (Math_min (stepFraction i ts * len + Fin 1) len)"
  shows "axisSample planeTurf axis len ts i =
           Inr (planePosition (planeAlong (map planePoint (lineCoordinates axis))
                  (realval (stepFraction i ts * len))))"
  using assms
  by (simp add: axisSample_def Let_def planeTurf_def planeMove_def planePoint_def
      planePosition_def plus_Fin_not_NaN)

text \<open>The bent valley: an axis of 10 m, one step, and the chord as the path.\<close>

lemma bent_length:
  "lengthMeters planeTurf
     (bezierSpline planeTurf (LineString (map (\<lambda>q. [lng q, lat q]) bentValley))) = Fin 10 \<and>
   lengthMeters planeTurf (LineString (map (\<lambda>q. [lng q, lat q]) bentValley)) = Fin 10 \<and>
   lengthMeters planeTurf chordPath = Fin 6"
  by (simp add: planeTurf_def plane_defs bentValley_def chordPath_def)

lemma bent_steps:
  "Math_ceil ((Fin 10 / Math_max (Fin 500) (Fin 10)) * defaultPointsPerWave) = Fin 1"
  by (simp add: Math_max_def defaultPointsPerWave_def eval_defs)

lemma bent_samples:
  "pointsOfSteps
     (axisSample planeTurf (LineString (map (\<lambda>q. [lng q, lat q]) bentValley)) (Fin 10) (Fin 1))
     [0..<2] = Inr [[Fin 0, Fin 0], [Fin 6, Fin 0]]"
proof -
  have two: "[0..<2] = [0, Suc 0]"
    by (simp add: upt_conv_Cons)
  have f: "stepFraction 0 (Fin 1) = Fin 0" "stepFraction (Suc 0) (Fin 1) = Fin 1"
    by (simp_all add: stepFraction_def eval_defs)
  have d: "Fin 0 * Fin 10 = Fin 0" "Fin 1 * Fin 10 = Fin 10"
    "Math_min (Fin 0 + Fin 1) (Fin 10) = Fin 1" "Math_min (Fin 10 + Fin 1) (Fin 10) = Fin 10"
    by (simp_all add: Math_min_def eval_defs)
  show ?thesis
    unfolding two
    by (simp add: plane_axisSample f d bentValley_def plane_defs)
qed

lemma bent_example:
  "generateMeander planeTurf bentValley (Fin 0) (Fin 500) defaultPointsPerWave =
     Some (Inr chordPath)"
proof -
  let ?axis = "bezierSpline planeTurf (LineString (map (\<lambda>q. [lng q, lat q]) bentValley))"
  have ax: "?axis = LineString (map (\<lambda>q. [lng q, lat q]) bentValley)"
    by (simp add: planeTurf_def)
  have len: "lengthMeters planeTurf ?axis = Fin 10"
    using bent_length by simp
  have l: "2 \<le> length bentValley"
    by (simp add: bentValley_def)
  have r: "representable (Fin 10)"
    using ob_big by (simp add: representable_def isFinite_def)
  from generateMeander_zero_amplitude [of bentValley "Fin 0" planeTurf "Fin 500"
      defaultPointsPerWave, OF l]
  show ?thesis
    unfolding len bent_steps
    using r by (simp add: ax bent_samples isFinite_def less_number_def chordPath_def)
qed

lemma calc_bent_example:
  "calculateHydraulics planeTurf (INITIAL_PARAMS\<lparr>valleyLine := bentValley\<rparr>) chordPath =
     Inr (hydraulicsFromLengths (INITIAL_PARAMS\<lparr>valleyLine := bentValley\<rparr>) (Fin 10) (Fin 6))"
proof -
  have "2 \<le> length (valleyLine (INITIAL_PARAMS\<lparr>valleyLine := bentValley\<rparr>))"
    by (simp add: bentValley_def)
  from calc_returns [OF this, of planeTurf chordPath] show ?thesis
    using bent_length by simp
qed








section \<open>The claims\<close>

text \<open>
  C1 (as amended). For every \<open>StreamParams\<close> whose valley line has at least two
  points \<open>calculateHydraulics\<close> returns metrics \<open>m\<close> that report the two measured
  lengths, and
  \<^item> when the valley length is positive, \<open>sinuosityIndex = max(1, channelLength / valleyLength)\<close>;
  \<^item> when the valley length is zero, \<open>sinuosityIndex\<close> is exactly 1;
  \<^item> \<open>sinuosityIndex\<close> is \<open>NaN\<close> exactly when the valley length is positive and
    \<open>channelLength / valleyLength\<close> is \<open>NaN\<close>, and otherwise it is at least 1.
\<close>

theorem C1_sinuosity:
  assumes "2 \<le> length (valleyLine p)"
  shows "\<exists>m. calculateHydraulics T p g = Inr m \<and>
      valleyLength m = lengthMeters T (LineString (map (\<lambda>q. [lng q, lat q]) (valleyLine p))) \<and>
      channelLength m = lengthMeters T g \<and>
      (Fin 0 < valleyLength m \<longrightarrow>
         sinuosityIndex m = Math_max (Fin 1) (channelLength m / valleyLength m)) \<and>
      (isZero (valleyLength m) \<longrightarrow> sinuosityIndex m = Fin 1) \<and>
      (isNaN (sinuosityIndex m) \<longleftrightarrow>
         Fin 0 < valleyLength m \<and> isNaN (channelLength m / valleyLength m)) \<and>
      (\<not> isNaN (sinuosityIndex m) \<longrightarrow> Fin 1 \<le> sinuosityIndex m)"
proof -
  define vl where "vl = lengthMeters T (LineString (map (\<lambda>q. [lng q, lat q]) (valleyLine p)))"
  define m where "m = hydraulicsFromLengths p vl (lengthMeters T g)"
  have r: "calculateHydraulics T p g = Inr m"
    using assms by (simp add: calc_returns m_def vl_def)
  have l: "valleyLength m = vl" "channelLength m = lengthMeters T g"
    by (simp_all add: m_def lengths_hyd)
  have pos: "Fin 0 < valleyLength m \<longrightarrow>
         sinuosityIndex m = Math_max (Fin 1) (channelLength m / valleyLength m)"
    by (simp add: m_def lengths_hyd si_hyd)
  have zero: "isZero (valleyLength m) \<longrightarrow> sinuosityIndex m = Fin 1"
    by (simp add: m_def lengths_hyd si_hyd isZero_not_pos)
  have nan: "isNaN (sinuosityIndex m) \<longleftrightarrow>
         Fin 0 < valleyLength m \<and> isNaN (channelLength m / valleyLength m)"
    by (simp add: m_def lengths_hyd si_NaN_iff)
  have ge: "\<not> isNaN (sinuosityIndex m) \<longrightarrow> Fin 1 \<le> sinuosityIndex m"
    using si_NaN_or_ge [of p vl "lengthMeters T g"] by (auto simp add: m_def)
  from r l pos zero nan ge show ?thesis
    unfolding vl_def by blast
qed

text \<open>
  The witness: the initial parameters with a valley measured as 894 m and a path
  of 1200 m, and the same with a valley measured as 0 m.
\<close>

theorem C1_sinuosity_witness:
  "2 \<le> length (valleyLine INITIAL_PARAMS) \<and>
   Fin 0 < valleyLength (hydraulicsFromLengths INITIAL_PARAMS (Fin 894) (Fin 1200)) \<and>
   sinuosityIndex (hydraulicsFromLengths INITIAL_PARAMS (Fin 894) (Fin 1200)) =
     Math_max (Fin 1) (Fin 1200 / Fin 894) \<and>
   Fin 1 \<le> sinuosityIndex (hydraulicsFromLengths INITIAL_PARAMS (Fin 894) (Fin 1200)) \<and>
   isZero (valleyLength (hydraulicsFromLengths INITIAL_PARAMS (Fin 0) (Fin 1200))) \<and>
   sinuosityIndex (hydraulicsFromLengths INITIAL_PARAMS (Fin 0) (Fin 1200)) = Fin 1"
proof -
  let ?M = "hydraulicsFromLengths INITIAL_PARAMS (Fin 894) (Fin 1200)"
  let ?Z = "hydraulicsFromLengths INITIAL_PARAMS (Fin 0) (Fin 1200)"
  have l: "2 \<le> length (valleyLine INITIAL_PARAMS)"
    by (simp add: INITIAL_PARAMS_def)
  have p: "Fin 0 < valleyLength ?M"
    by (simp add: lengths_hyd less_number_def)
  have n: "\<not> isNaN (sinuosityIndex ?M)"
    by (simp add: si_example)
  have q: "isZero (valleyLength ?Z)"
    by (simp add: lengths_hyd)
  from C1_sinuosity [OF l, of "stubTurf examplePath (Fin 1200) (Fin 894)" examplePath]
  have a: "sinuosityIndex ?M = Math_max (Fin 1) (Fin 1200 / Fin 894) \<and>
           Fin 1 \<le> sinuosityIndex ?M"
    using p n by (auto simp add: calc_example lengths_hyd)
  from C1_sinuosity [OF l, of "stubTurf examplePath (Fin 1200) (Fin 0)" examplePath]
  have b: "sinuosityIndex ?Z = Fin 1"
    using q by (auto simp add: calc_zero_example)
  from l p q a b show ?thesis
    by blast
qed

text \<open>
  The claim as stated fails where the channel length is \<open>NaN\<close> (a path with \<open>NaN\<close>
  coordinates): the valley has three points and a positive length, and the
  returned \<open>sinuosityIndex\<close> is \<open>Math.max(1, NaN) = NaN\<close>, which is not \<open>>= 1\<close>.
\<close>

theorem C1_counterexample:
  "calculateHydraulics (stubTurf nanPath NaN (Fin 894)) INITIAL_PARAMS nanPath =
     Inr (hydraulicsFromLengths INITIAL_PARAMS (Fin 894) NaN) \<and>
   sinuosityIndex (hydraulicsFromLengths INITIAL_PARAMS (Fin 894) NaN) = NaN \<and>
   \<not> Fin 1 \<le> sinuosityIndex (hydraulicsFromLengths INITIAL_PARAMS (Fin 894) NaN)"
  by (simp add: calc_nan_example si_nan_example less_eq_number_def)

text \<open>
  C2 (as amended). With the ratio taken as the code guards it (\<open>rcRatio\<close>:
  \<open>radiusOfCurvature / bankfullWidth\<close> when \<open>bankfullWidth > 0\<close>, else 10), the
  health is assigned by the first matching rule:
  \<^enum> \<open>rcRatio < 2.0\<close> and \<open>sinuosityIndex > 1.05\<close>: \<open>HIGH_RISK\<close>, with one warning that
    cites the radius, the width and the ratio;
  \<^enum> else \<open>sinuosityIndex < 1.2\<close>: \<open>DEGRADED\<close>, with the straightened-channel warning;
  \<^enum> else \<open>1.2 < sinuosityIndex < 1.5\<close>: \<open>RECOVERING\<close>;
  \<^enum> else \<open>STABLE\<close>; in particular a \<open>sinuosityIndex\<close> of exactly 1.2, or of at least
    1.5, is \<open>STABLE\<close> when rule 1 does not fire.
\<close>

theorem C2_health_rules:
  "(rcRatio m p < Fin 2.0 \<and> Fin 1.05 < sinuosityIndex m \<longrightarrow>
      health (assessEcologicalHealth m p) = HIGH_RISK \<and>
      warnings (assessEcologicalHealth m p) = [avulsionWarning m p (rcRatio m p)] \<and>
      ToFixed (radiusOfCurvature m) 1 \<in> set (avulsionWarning m p (rcRatio m p)) \<and>
      ToStr (bankfullWidth p) \<in> set (avulsionWarning m p (rcRatio m p)) \<and>
      ToFixed (rcRatio m p) 1 \<in> set (avulsionWarning m p (rcRatio m p))) \<and>
   (\<not> (rcRatio m p < Fin 2.0 \<and> Fin 1.05 < sinuosityIndex m) \<longrightarrow>
      (sinuosityIndex m < Fin 1.2 \<longrightarrow>
         health (assessEcologicalHealth m p) = DEGRADED \<and>
         warnings (assessEcologicalHealth m p) = [straightenedWarning]) \<and>
      (\<not> sinuosityIndex m < Fin 1.2 \<and>
       Fin 1.2 < sinuosityIndex m \<and> sinuosityIndex m < Fin 1.5 \<longrightarrow>
         health (assessEcologicalHealth m p) = RECOVERING) \<and>
      (\<not> sinuosityIndex m < Fin 1.2 \<and>
       \<not> (Fin 1.2 < sinuosityIndex m \<and> sinuosityIndex m < Fin 1.5) \<longrightarrow>
         health (assessEcologicalHealth m p) = STABLE) \<and>
      (sinuosityIndex m = Fin 1.2 \<or> Fin 1.5 \<le> sinuosityIndex m \<longrightarrow>
         health (assessEcologicalHealth m p) = STABLE))"
proof -
  have stable: "sinuosityIndex m = Fin 1.2 \<or> Fin 1.5 \<le> sinuosityIndex m \<Longrightarrow>
      \<not> sinuosityIndex m < Fin 1.2 \<and>
      \<not> (Fin 1.2 < sinuosityIndex m \<and> sinuosityIndex m < Fin 1.5)"
    by (cases "sinuosityIndex m") (auto simp add: less_number_def less_eq_number_def)
  show ?thesis
    using stable
    by (auto simp add: assessEcologicalHealth_def health_assessWithRatio
        warnings_assessWithRatio avulsionWarning_def)
qed

text \<open>
  The witness runs each rule once: a tight bend (ratio 1.5), then a wide one
  (ratio 5) with \<open>sinuosityIndex\<close> 1.1, 1.25, 1.2 and 1.6.
\<close>

theorem C2_health_rules_witness:
  "rcRatio exampleMetrics INITIAL_PARAMS < Fin 2.0 \<and>
   Fin 1.05 < sinuosityIndex exampleMetrics \<and>
   health (assessEcologicalHealth exampleMetrics INITIAL_PARAMS) = HIGH_RISK \<and>
   \<not> rcRatio (exampleMetrics\<lparr>radiusOfCurvature := Fin 40\<rparr>) INITIAL_PARAMS < Fin 2.0 \<and>
   health (assessEcologicalHealth
     (exampleMetrics\<lparr>radiusOfCurvature := Fin 40, sinuosityIndex := Fin 1.1\<rparr>) INITIAL_PARAMS)
     = DEGRADED \<and>
   health (assessEcologicalHealth
     (exampleMetrics\<lparr>radiusOfCurvature := Fin 40\<rparr>) INITIAL_PARAMS)
     = RECOVERING \<and>
   health (assessEcologicalHealth
     (exampleMetrics\<lparr>radiusOfCurvature := Fin 40, sinuosityIndex := Fin 1.2\<rparr>) INITIAL_PARAMS)
     = STABLE \<and>
   health (assessEcologicalHealth
     (exampleMetrics\<lparr>radiusOfCurvature := Fin 40, sinuosityIndex := Fin 1.6\<rparr>) INITIAL_PARAMS)
     = STABLE"
proof -
  let ?far = "exampleMetrics\<lparr>radiusOfCurvature := Fin 40\<rparr>"
  have tight: "rcRatio exampleMetrics INITIAL_PARAMS < Fin 2.0"
    by (simp add: rcRatio_def exampleMetrics_def INITIAL_PARAMS_def eval_defs)
  have si: "Fin 1.05 < sinuosityIndex exampleMetrics"
    by (simp add: exampleMetrics_def less_number_def)
  have far: "\<And>x. \<not> rcRatio (?far\<lparr>sinuosityIndex := x\<rparr>) INITIAL_PARAMS < Fin 2.0"
       "\<not> rcRatio ?far INITIAL_PARAMS < Fin 2.0"
    by (simp_all add: rcRatio_def exampleMetrics_def INITIAL_PARAMS_def eval_defs)
  have r1: "health (assessEcologicalHealth exampleMetrics INITIAL_PARAMS) = HIGH_RISK"
    using C2_health_rules [of exampleMetrics INITIAL_PARAMS] tight si by blast
  have lo: "sinuosityIndex (?far\<lparr>sinuosityIndex := Fin 1.1\<rparr>) < Fin 1.2"
    by (simp add: less_number_def)
  have r2: "health (assessEcologicalHealth (?far\<lparr>sinuosityIndex := Fin 1.1\<rparr>) INITIAL_PARAMS)
      = DEGRADED"
    using C2_health_rules [of "?far\<lparr>sinuosityIndex := Fin 1.1\<rparr>" INITIAL_PARAMS] far(1) lo
    by blast
  have mid: "\<not> sinuosityIndex ?far < Fin 1.2 \<and>
      Fin 1.2 < sinuosityIndex ?far \<and> sinuosityIndex ?far < Fin 1.5"
    by (simp add: exampleMetrics_def less_number_def)
  have r3: "health (assessEcologicalHealth ?far INITIAL_PARAMS) = RECOVERING"
    using C2_health_rules [of ?far INITIAL_PARAMS] far(2) mid by blast
  have eq: "sinuosityIndex (?far\<lparr>sinuosityIndex := Fin 1.2\<rparr>) = Fin 1.2"
    by simp
  have r4: "health (assessEcologicalHealth (?far\<lparr>sinuosityIndex := Fin 1.2\<rparr>) INITIAL_PARAMS)
      = STABLE"
    using C2_health_rules [of "?far\<lparr>sinuosityIndex := Fin 1.2\<rparr>" INITIAL_PARAMS] far(1) eq
    by blast
  have hi: "Fin 1.5 \<le> sinuosityIndex (?far\<lparr>sinuosityIndex := Fin 1.6\<rparr>)"
    by (simp add: less_eq_number_def)
  have r5: "health (assessEcologicalHealth (?far\<lparr>sinuosityIndex := Fin 1.6\<rparr>) INITIAL_PARAMS)
      = STABLE"
    using C2_health_rules [of "?far\<lparr>sinuosityIndex := Fin 1.6\<rparr>" INITIAL_PARAMS] far(1) hi
    by blast
  from tight si far(2) r1 r2 r3 r4 r5 show ?thesis by blast
qed

text \<open>
  The claim as stated, with the plain quotient in rule 1, fails for a negative
  width: the quotient \<open>12 / (-8)\<close> is below 2.0 and \<open>sinuosityIndex\<close> is 1.25, yet
  the guard replaces the ratio by 10 and the health is \<open>RECOVERING\<close>.
\<close>

theorem C2_counterexample:
  "radiusOfCurvature exampleMetrics / bankfullWidth (INITIAL_PARAMS\<lparr>bankfullWidth := Fin (- 8)\<rparr>)
     < Fin 2.0 \<and>
   Fin 1.05 < sinuosityIndex exampleMetrics \<and>
   health (assessEcologicalHealth exampleMetrics (INITIAL_PARAMS\<lparr>bankfullWidth := Fin (- 8)\<rparr>))
     = RECOVERING"
  by (simp add: assessEcologicalHealth_def health_assessWithRatio rcRatio_def exampleMetrics_def
      eval_defs)

text \<open>
  C3. For a valley of no point or of one point \<open>generateMeander\<close> does not return
  an empty path: the branch hands the empty list to \<open>turf.lineString\<close>, which
  throws. \<open>calculateHydraulics\<close> on parameters with such a valley line throws as
  well, before any length is measured.
\<close>

theorem C3_too_few_points:
  "generateMeander T [] a w n = Some (Inl tooFewPositions) \<and>
   generateMeander T [q] a w n = Some (Inl tooFewPositions) \<and>
   calculateHydraulics T (p\<lparr>valleyLine := []\<rparr>) g = Inl tooFewPositions \<and>
   calculateHydraulics T (p\<lparr>valleyLine := [q]\<rparr>) g = Inl tooFewPositions"
  by (simp add: generateMeander_def calculateHydraulics_def lineString_def)

text \<open>
  C4 (as amended). Whenever \<open>calculateHydraulics\<close> returns metrics \<open>m\<close>:
  \<open>newSlope = originalSlope / sinuosityIndex\<close> if \<open>sinuosityIndex\<close> is not \<open>NaN\<close>
  (and \<open>newSlope = originalSlope\<close> if it is); and if moreover \<open>valleySlope\<close> is finite
  and not negative, \<open>manningsN\<close> is positive and Manning's coefficient
  \<open>(1 / manningsN) * Math.pow(R, 2 / 3)\<close> is finite, where \<open>R\<close> is the hydraulic radius
  \<open>(w * d) / (w + 2 * d)\<close>, then \<open>newVelocity <= originalVelocity\<close> whenever
  \<open>sinuosityIndex > 1\<close>. The coefficient is not finite when \<open>1 / manningsN\<close> or the
  radius overflows, or when the radius is negative or \<open>NaN\<close>.
\<close>

theorem C4_slope_and_velocity:
  assumes "calculateHydraulics T p g = Inr m"
  shows "(\<not> isNaN (sinuosityIndex m) \<longrightarrow> newSlope m = originalSlope m / sinuosityIndex m) \<and>
         (isNaN (sinuosityIndex m) \<longrightarrow> newSlope m = originalSlope m) \<and>
         (Fin 0 \<le> valleySlope p \<and> representable (valleySlope p) \<and> Fin 0 < manningsN p \<and>
          isFinite ((Fin 1 / manningsN p) *
                    Math_pow ((bankfullWidth p * bankfullDepth p) /
                              (bankfullWidth p + Fin 2 * bankfullDepth p)) (Fin 2 / Fin 3)) \<and>
          Fin 1 < sinuosityIndex m \<longrightarrow> newVelocity m \<le> originalVelocity m)"
proof -
  define vl where "vl = lengthMeters T (LineString (map (\<lambda>q. [lng q, lat q]) (valleyLine p)))"
  define cl where "cl = lengthMeters T g"
  have m: "m = hydraulicsFromLengths p vl cl"
    using calc_Inr [OF assms] by (simp add: vl_def cl_def)
  have a: "\<not> isNaN (sinuosityIndex m) \<longrightarrow> newSlope m = originalSlope m / sinuosityIndex m"
    using si_NaN_or_ge [of p vl cl] ge_one_pos [of "sinuosityIndex m"]
    by (auto simp add: m newSlope_hyd)
  have b: "isNaN (sinuosityIndex m) \<longrightarrow> newSlope m = originalSlope m"
    using lt_not_NaN [of "Fin 0" "sinuosityIndex m"]
    by (auto simp add: m newSlope_hyd)
  have c: "newVelocity m \<le> originalVelocity m"
    if s: "Fin 0 \<le> valleySlope p" "representable (valleySlope p)" and n: "Fin 0 < manningsN p"
      and k: "isFinite ((Fin 1 / manningsN p) *
                        Math_pow ((bankfullWidth p * bankfullDepth p) /
                                  (bankfullWidth p + Fin 2 * bankfullDepth p)) (Fin 2 / Fin 3))"
      and si: "Fin 1 < sinuosityIndex m"
  proof -
    have os: "representable (originalSlope m)" "Fin 0 \<le> originalSlope m"
      using slope_percent [OF s(2) s(1)] by (simp_all add: m originalSlope_hyd)
    have "Fin 0 < sinuosityIndex m"
      using si by (cases "sinuosityIndex m") (simp_all add: less_number_def)
    then have ns: "newSlope m = originalSlope m / sinuosityIndex m"
      by (simp add: m newSlope_hyd)
    from slope_div [OF os si] have nb: "representable (newSlope m)" "Fin 0 \<le> newSlope m"
      "realval (newSlope m) \<le> realval (originalSlope m)"
      by (simp_all add: ns)
    from velocity_mono [OF n k nb(1,2) os(1) nb(3)] show ?thesis
      using vel_hyd [of p vl cl] by (simp add: m)
  qed
  from a b c show ?thesis by blast
qed

text \<open>The witness: the initial parameters, a valley of 894 m and a path of 1200 m.\<close>

theorem C4_slope_and_velocity_witness:
  "calculateHydraulics (stubTurf examplePath (Fin 1200) (Fin 894)) INITIAL_PARAMS examplePath =
     Inr (hydraulicsFromLengths INITIAL_PARAMS (Fin 894) (Fin 1200)) \<and>
   Fin 0 \<le> valleySlope INITIAL_PARAMS \<and> representable (valleySlope INITIAL_PARAMS) \<and>
   Fin 0 < manningsN INITIAL_PARAMS \<and>
   isFinite ((Fin 1 / manningsN INITIAL_PARAMS) *
             Math_pow ((bankfullWidth INITIAL_PARAMS * bankfullDepth INITIAL_PARAMS) /
                       (bankfullWidth INITIAL_PARAMS + Fin 2 * bankfullDepth INITIAL_PARAMS))
               (Fin 2 / Fin 3)) \<and>
   Fin 1 < sinuosityIndex (hydraulicsFromLengths INITIAL_PARAMS (Fin 894) (Fin 1200)) \<and>
   newSlope (hydraulicsFromLengths INITIAL_PARAMS (Fin 894) (Fin 1200)) =
     originalSlope (hydraulicsFromLengths INITIAL_PARAMS (Fin 894) (Fin 1200)) /
     sinuosityIndex (hydraulicsFromLengths INITIAL_PARAMS (Fin 894) (Fin 1200)) \<and>
   newVelocity (hydraulicsFromLengths INITIAL_PARAMS (Fin 894) (Fin 1200))
     \<le> originalVelocity (hydraulicsFromLengths INITIAL_PARAMS (Fin 894) (Fin 1200))"
proof -
  have v: "Fin 0 \<le> valleySlope INITIAL_PARAMS \<and> representable (valleySlope INITIAL_PARAMS) \<and>
   Fin 0 < manningsN INITIAL_PARAMS"
    using ob_big
    by (simp add: INITIAL_PARAMS_def representable_def isFinite_def less_number_def
        less_eq_number_def)
  have k: "isFinite ((Fin 1 / manningsN INITIAL_PARAMS) *
             Math_pow ((bankfullWidth INITIAL_PARAMS * bankfullDepth INITIAL_PARAMS) /
                       (bankfullWidth INITIAL_PARAMS + Fin 2 * bankfullDepth INITIAL_PARAMS))
               (Fin 2 / Fin 3))"
    unfolding radius_example by (rule coefficient_example)
  have si: "Fin 1 < sinuosityIndex (hydraulicsFromLengths INITIAL_PARAMS (Fin 894) (Fin 1200))"
    by (simp add: si_example less_number_def)
  then have n: "\<not> isNaN (sinuosityIndex (hydraulicsFromLengths INITIAL_PARAMS (Fin 894) (Fin 1200)))"
    using lt_not_NaN by blast
  from C4_slope_and_velocity [OF calc_example] calc_example v k si n show ?thesis
    by blast
qed

text \<open>
  The claim as stated asks for a non-negative \<open>valleySlope\<close> only. It fails for the
  initial parameters with the roughness negated: \<open>sinuosityIndex\<close> is above 1 and the
  new velocity is the larger one. It fails on a path of \<open>NaN\<close> length, where
  \<open>sinuosityIndex\<close> is \<open>NaN\<close> and the slope is left as it was. And it fails for a
  positive roughness of \<open>1e-320\<close> with a valley slope of 0, where \<open>1 / manningsN\<close>
  overflows and both velocities are \<open>NaN\<close>.
\<close>

theorem C4_counterexample:
  "calculateHydraulics (stubTurf examplePath (Fin 1200) (Fin 894))
     (INITIAL_PARAMS\<lparr>manningsN := Fin (- 0.045)\<rparr>) examplePath =
   Inr (hydraulicsFromLengths (INITIAL_PARAMS\<lparr>manningsN := Fin (- 0.045)\<rparr>)
          (Fin 894) (Fin 1200)) \<and>
   Fin 0 \<le> valleySlope (INITIAL_PARAMS\<lparr>manningsN := Fin (- 0.045)\<rparr>) \<and>
   Fin 1 < sinuosityIndex
     (hydraulicsFromLengths (INITIAL_PARAMS\<lparr>manningsN := Fin (- 0.045)\<rparr>) (Fin 894) (Fin 1200)) \<and>
   \<not> newVelocity
       (hydraulicsFromLengths (INITIAL_PARAMS\<lparr>manningsN := Fin (- 0.045)\<rparr>) (Fin 894) (Fin 1200))
     \<le> originalVelocity
       (hydraulicsFromLengths (INITIAL_PARAMS\<lparr>manningsN := Fin (- 0.045)\<rparr>) (Fin 894) (Fin 1200)) \<and>
   calculateHydraulics (stubTurf nanPath NaN (Fin 894)) INITIAL_PARAMS nanPath =
     Inr (hydraulicsFromLengths INITIAL_PARAMS (Fin 894) NaN) \<and>
   newSlope (hydraulicsFromLengths INITIAL_PARAMS (Fin 894) NaN) = Fin 0.025 \<and>
   originalSlope (hydraulicsFromLengths INITIAL_PARAMS (Fin 894) NaN) /
     sinuosityIndex (hydraulicsFromLengths INITIAL_PARAMS (Fin 894) NaN) = NaN \<and>
   calculateHydraulics (stubTurf examplePath (Fin 1200) (Fin 894))
     (INITIAL_PARAMS\<lparr>manningsN := Fin (1 / 10 ^ 320), valleySlope := Fin 0\<rparr>) examplePath =
   Inr (hydraulicsFromLengths
          (INITIAL_PARAMS\<lparr>manningsN := Fin (1 / 10 ^ 320), valleySlope := Fin 0\<rparr>)
          (Fin 894) (Fin 1200)) \<and>
   Fin 0 \<le> valleySlope (INITIAL_PARAMS\<lparr>manningsN := Fin (1 / 10 ^ 320), valleySlope := Fin 0\<rparr>) \<and>
   Fin 0 < manningsN (INITIAL_PARAMS\<lparr>manningsN := Fin (1 / 10 ^ 320), valleySlope := Fin 0\<rparr>) \<and>
   Fin 1 < sinuosityIndex
     (hydraulicsFromLengths
        (INITIAL_PARAMS\<lparr>manningsN := Fin (1 / 10 ^ 320), valleySlope := Fin 0\<rparr>)
        (Fin 894) (Fin 1200)) \<and>
   \<not> newVelocity
       (hydraulicsFromLengths
          (INITIAL_PARAMS\<lparr>manningsN := Fin (1 / 10 ^ 320), valleySlope := Fin 0\<rparr>)
          (Fin 894) (Fin 1200))
     \<le> originalVelocity
       (hydraulicsFromLengths
          (INITIAL_PARAMS\<lparr>manningsN := Fin (1 / 10 ^ 320), valleySlope := Fin 0\<rparr>)
          (Fin 894) (Fin 1200))"
proof -
  let ?p = "INITIAL_PARAMS\<lparr>manningsN := Fin (- 0.045)\<rparr>"
  let ?o = "INITIAL_PARAMS\<lparr>manningsN := Fin (1 / 10 ^ 320), valleySlope := Fin 0\<rparr>"
  have s: "Fin 0 \<le> valleySlope ?p"
    by (simp add: INITIAL_PARAMS_def less_eq_number_def)
  have si: "Fin 1 < sinuosityIndex (hydraulicsFromLengths ?p (Fin 894) (Fin 1200))"
    by (simp add: si_example less_number_def)
  have sl: "originalSlope (hydraulicsFromLengths ?p (Fin 894) (Fin 1200)) = Fin 0.025"
      "newSlope (hydraulicsFromLengths ?p (Fin 894) (Fin 1200)) = Fin (0.025 * 894 / 1200)"
    using slopes_example [of ?p] by (simp_all add: INITIAL_PARAMS_def)
  have r: "(bankfullWidth ?p * bankfullDepth ?p) / (bankfullWidth ?p + Fin 2 * bankfullDepth ?p)
      = Fin (12 / 13)"
    using radius_example by simp
  have n: "manningsN ?p = Fin (- 0.045)"
    by simp
  have v: "\<not> calculateVelocity ?p (Fin (12 / 13)) (Fin (0.025 * 894 / 1200))
             \<le> calculateVelocity ?p (Fin (12 / 13)) (Fin 0.025)"
    by (rule velocity_anti [OF n]) simp_all
  have vel: "\<not> newVelocity (hydraulicsFromLengths ?p (Fin 894) (Fin 1200))
          \<le> originalVelocity (hydraulicsFromLengths ?p (Fin 894) (Fin 1200))"
    using v unfolding vel_hyd [THEN conjunct1] vel_hyd [THEN conjunct2] r sl .
  have nsl: "newSlope (hydraulicsFromLengths INITIAL_PARAMS (Fin 894) NaN) = Fin 0.025"
    using slopes_nan_example [of INITIAL_PARAMS] by (simp add: INITIAL_PARAMS_def)
  have q: "originalSlope (hydraulicsFromLengths INITIAL_PARAMS (Fin 894) NaN) /
     sinuosityIndex (hydraulicsFromLengths INITIAL_PARAMS (Fin 894) NaN) = NaN"
    by (simp add: si_nan_example divide_number_def)
  have oc: "calculateHydraulics (stubTurf examplePath (Fin 1200) (Fin 894)) ?o examplePath =
      Inr (hydraulicsFromLengths ?o (Fin 894) (Fin 1200))"
    by (rule calc_params_example) simp
  have oh: "Fin 0 \<le> valleySlope ?o" "Fin 0 < manningsN ?o"
    by (simp_all add: less_number_def less_eq_number_def)
  have osi: "Fin 1 < sinuosityIndex (hydraulicsFromLengths ?o (Fin 894) (Fin 1200))"
    by (simp add: si_example less_number_def)
  have osl: "newSlope (hydraulicsFromLengths ?o (Fin 894) (Fin 1200)) = Fin 0"
    using slopes_zero_example [of ?o] by simp
  have ro: "(bankfullWidth ?o * bankfullDepth ?o) / (bankfullWidth ?o + Fin 2 * bankfullDepth ?o)
      = Fin (12 / 13)"
    using radius_example by simp
  have "newVelocity (hydraulicsFromLengths ?o (Fin 894) (Fin 1200)) = NaN"
    unfolding vel_hyd [THEN conjunct2] ro osl by (rule overflow_example) simp
  then have ovel: "\<not> newVelocity (hydraulicsFromLengths ?o (Fin 894) (Fin 1200))
          \<le> originalVelocity (hydraulicsFromLengths ?o (Fin 894) (Fin 1200))"
    by (simp add: less_eq_number_def)
  have old: "calculateHydraulics (stubTurf examplePath (Fin 1200) (Fin 894)) ?p examplePath =
      Inr (hydraulicsFromLengths ?p (Fin 894) (Fin 1200))"
    by (rule calc_params_example) simp
  from old s si vel calc_nan_example nsl q oc oh osi ovel show ?thesis
    by blast
qed

text \<open>
  C5 (as amended). Let \<open>generateMeander\<close> return a path for the valley line of the
  parameters and \<open>calculateHydraulics\<close> return metrics \<open>m\<close> for that path. Then
  \<open>totalSteps\<close> is finite and at least 1, and the path consists of the points of the
  steps \<open>0, ..., totalSteps\<close>; \<open>channelLength\<close> and \<open>valleyLength\<close> are the library's
  measures of that path and of the raw valley polyline, reported as measured.
  Nothing makes \<open>channelLength >= valleyLength\<close>. What the code enforces is that
  \<open>sinuosityIndex\<close> is at least 1 (or \<open>NaN\<close>): whenever \<open>0 <= channelLength < valleyLength\<close>
  it is exactly 1.
\<close>

theorem C5_path_and_lengths:
  fixes T p a w n path m
  defines "axis \<equiv> bezierSpline T (LineString (map (\<lambda>q. [lng q, lat q]) (valleyLine p)))"
  defines "totalSteps \<equiv> Math_ceil ((lengthMeters T axis / Math_max w (Fin 10)) * n)"
  assumes "generateMeander T (valleyLine p) a w n = Some (Inr path)"
    and "calculateHydraulics T p path = Inr m"
  shows "isFinite totalSteps \<and> Fin 1 \<le> totalSteps \<and>
         length (lineCoordinates path) = nat (\<lfloor>realval totalSteps\<rfloor> + 1) \<and>
         pointsOfSteps
           (meanderPoint T axis (lengthMeters T axis) (Math_max w (Fin 10)) a totalSteps)
           [0..<nat (\<lfloor>realval totalSteps\<rfloor> + 1)] = Inr (lineCoordinates path) \<and>
         channelLength m = lengthMeters T path \<and>
         valleyLength m =
           lengthMeters T (LineString (map (\<lambda>q. [lng q, lat q]) (valleyLine p))) \<and>
         (isNaN (sinuosityIndex m) \<or> Fin 1 \<le> sinuosityIndex m) \<and>
         (Fin 0 \<le> channelLength m \<and> channelLength m < valleyLength m \<longrightarrow>
            sinuosityIndex m = Fin 1)"
proof -
  define vl where "vl = lengthMeters T (LineString (map (\<lambda>q. [lng q, lat q]) (valleyLine p)))"
  define cl where "cl = lengthMeters T path"
  have m: "m = hydraulicsFromLengths p vl cl"
    using calc_Inr [OF assms(4)] by (simp add: vl_def cl_def)
  from generateMeander_Inr [OF assms(3)]
  have g: "isFinite totalSteps"
    "pointsOfSteps
       (meanderPoint T axis (lengthMeters T axis) (Math_max w (Fin 10)) a totalSteps)
       [0..<nat (\<lfloor>realval totalSteps\<rfloor> + 1)] = Inr (lineCoordinates path)"
    "length (lineCoordinates path) = nat (\<lfloor>realval totalSteps\<rfloor> + 1)"
    "2 \<le> length (lineCoordinates path)"
    unfolding axis_def totalSteps_def by simp_all
  from g(3,4) have "1 \<le> \<lfloor>realval totalSteps\<rfloor>"
    by linarith
  then have "1 \<le> realval totalSteps"
    by (simp add: le_floor_iff)
  then have one: "Fin 1 \<le> totalSteps"
    using g(1) by (simp add: finite_le_iff isFinite_def)
  have l: "channelLength m = cl" "valleyLength m = vl"
    by (simp_all add: m lengths_hyd)
  have si: "isNaN (sinuosityIndex m) \<or> Fin 1 \<le> sinuosityIndex m"
    unfolding m by (rule si_NaN_or_ge)
  have short: "Fin 0 \<le> channelLength m \<and> channelLength m < valleyLength m \<longrightarrow>
      sinuosityIndex m = Fin 1"
    unfolding l unfolding m using si_short by blast
  from g(1) one g(3) g(2) l si short show ?thesis
    unfolding vl_def cl_def by blast
qed

text \<open>
  The witness, on the flat map: the bent valley with a wavelength of 500 m and an
  amplitude of 0. One step is made, the path has two points, its length of 6 m
  is below the valley's 10 m, and \<open>sinuosityIndex\<close> is 1.
\<close>

theorem C5_path_and_lengths_witness:
  "generateMeander planeTurf (valleyLine (INITIAL_PARAMS\<lparr>valleyLine := bentValley\<rparr>))
     (Fin 0) (Fin 500) defaultPointsPerWave = Some (Inr chordPath) \<and>
   calculateHydraulics planeTurf (INITIAL_PARAMS\<lparr>valleyLine := bentValley\<rparr>) chordPath =
     Inr (hydraulicsFromLengths (INITIAL_PARAMS\<lparr>valleyLine := bentValley\<rparr>) (Fin 10) (Fin 6)) \<and>
   length (lineCoordinates chordPath) = 2 \<and>
   Fin 0 \<le> channelLength
     (hydraulicsFromLengths (INITIAL_PARAMS\<lparr>valleyLine := bentValley\<rparr>) (Fin 10) (Fin 6)) \<and>
   channelLength
     (hydraulicsFromLengths (INITIAL_PARAMS\<lparr>valleyLine := bentValley\<rparr>) (Fin 10) (Fin 6))
     < valleyLength
     (hydraulicsFromLengths (INITIAL_PARAMS\<lparr>valleyLine := bentValley\<rparr>) (Fin 10) (Fin 6)) \<and>
   sinuosityIndex
     (hydraulicsFromLengths (INITIAL_PARAMS\<lparr>valleyLine := bentValley\<rparr>) (Fin 10) (Fin 6))
     = Fin 1"
proof -
  let ?p = "INITIAL_PARAMS\<lparr>valleyLine := bentValley\<rparr>"
  let ?m = "hydraulicsFromLengths ?p (Fin 10) (Fin 6)"
  have gen: "generateMeander planeTurf (valleyLine ?p) (Fin 0) (Fin 500) defaultPointsPerWave =
      Some (Inr chordPath)"
    using bent_example by simp
  have len: "length (lineCoordinates chordPath) = 2"
    by (simp add: chordPath_def)
  have c: "Fin 0 \<le> channelLength ?m" "channelLength ?m < valleyLength ?m"
    by (simp_all add: lengths_hyd less_number_def less_eq_number_def)
  from C5_path_and_lengths [OF gen calc_bent_example] c
  have "sinuosityIndex ?m = Fin 1"
    by blast
  with gen calc_bent_example len c show ?thesis
    by blast
qed

text \<open>
  The claim as stated fails on the same input: the valley line has three points,
  the amplitude is 0 and the wavelength 500 m, and the path that \<open>generateMeander\<close>
  returns is the chord between the ends of the valley, so the reported
  \<open>channelLength\<close> of 6 m is below the \<open>valleyLength\<close> of 10 m.
\<close>

theorem C5_counterexample:
  "2 \<le> length bentValley \<and> Fin 0 \<le> Fin 0 \<and>
   generateMeander planeTurf bentValley (Fin 0) (Fin 500) defaultPointsPerWave =
     Some (Inr chordPath) \<and>
   calculateHydraulics planeTurf (INITIAL_PARAMS\<lparr>valleyLine := bentValley\<rparr>) chordPath =
     Inr (hydraulicsFromLengths (INITIAL_PARAMS\<lparr>valleyLine := bentValley\<rparr>) (Fin 10) (Fin 6)) \<and>
   channelLength
     (hydraulicsFromLengths (INITIAL_PARAMS\<lparr>valleyLine := bentValley\<rparr>) (Fin 10) (Fin 6))
     = Fin 6 \<and>
   valleyLength
     (hydraulicsFromLengths (INITIAL_PARAMS\<lparr>valleyLine := bentValley\<rparr>) (Fin 10) (Fin 6))
     = Fin 10 \<and>
   \<not> valleyLength
       (hydraulicsFromLengths (INITIAL_PARAMS\<lparr>valleyLine := bentValley\<rparr>) (Fin 10) (Fin 6))
     \<le> channelLength
       (hydraulicsFromLengths (INITIAL_PARAMS\<lparr>valleyLine := bentValley\<rparr>) (Fin 10) (Fin 6))"
  using bent_example calc_bent_example
  by (simp add: lengths_hyd bentValley_def less_eq_number_def)




text \<open>
  C7. Let the valley have at least two points, the smoothed axis have length zero,
  the wavelength not be \<open>NaN\<close> and \<open>pointsPerWave\<close> be finite. Then \<open>totalSteps\<close> is
  zero, and the division is not guarded: the fraction of the one step is
  \<open>0 / 0 = NaN\<close>, not 0. The call does not return a path: it throws, either
  inside the one step or, after the step has pushed its point, in
  \<open>turf.lineString\<close>, which refuses a single position.
\<close>

theorem C7_zero_steps:
  fixes T vps w n a
  defines "axis \<equiv> bezierSpline T (LineString (map (\<lambda>q. [lng q, lat q]) vps))"
  defines "totalSteps \<equiv> Math_ceil ((lengthMeters T axis / Math_max w (Fin 10)) * n)"
  assumes "2 \<le> length vps"
    and "isZero (lengthMeters T axis)"
    and "\<not> isNaN w" and "isFinite n"
  shows "isZero totalSteps \<and>
         stepFraction 0 totalSteps = NaN \<and>
         generateMeander T vps a w n =
           Some (Inl (case meanderPoint T axis (lengthMeters T axis) (Math_max w (Fin 10)) a
                             totalSteps 0 of
                        Inl e \<Rightarrow> e
                      | Inr pt \<Rightarrow> tooFewPositions))"
proof -
  have z: "isZero totalSteps"
    unfolding totalSteps_def using assms(4-6) by (rule totalSteps_zero)
  have f: "stepFraction 0 totalSteps = NaN"
    using z by (rule zero_div_zero)
  have g: "generateMeander T vps a w n =
           Some (Inl (case meanderPoint T axis (lengthMeters T axis) (Math_max w (Fin 10)) a
                             totalSteps 0 of
                        Inl e \<Rightarrow> e
                      | Inr pt \<Rightarrow> tooFewPositions))"
    unfolding axis_def totalSteps_def
    using assms(3) z [unfolded totalSteps_def axis_def] by (rule zero_steps_throw)
  from z f g show ?thesis by blast
qed

theorem C7_zero_steps_witness:
  "2 \<le> length coincidentValley \<and>
   isZero (lengthMeters (stubTurf examplePath (Fin 1200) (Fin 0))
             (bezierSpline (stubTurf examplePath (Fin 1200) (Fin 0))
                (LineString (map (\<lambda>q. [lng q, lat q]) coincidentValley)))) \<and>
   \<not> isNaN (Fin 100) \<and> isFinite defaultPointsPerWave \<and>
   generateMeander (stubTurf examplePath (Fin 1200) (Fin 0)) coincidentValley
     (Fin 20) (Fin 100) defaultPointsPerWave = Some (Inl tooFewPositions)"
proof -
  let ?T = "stubTurf examplePath (Fin 1200) (Fin 0)"
  have l: "2 \<le> length coincidentValley"
    by (simp add: coincidentValley_def)
  have z: "isZero (lengthMeters ?T
             (bezierSpline ?T (LineString (map (\<lambda>q. [lng q, lat q]) coincidentValley))))"
    by (simp add: stubTurf_def coincidentValley_def examplePath_def)
  have w: "\<not> isNaN (Fin 100)"
    by simp
  have n: "isFinite defaultPointsPerWave"
    by (simp add: defaultPointsPerWave_def isFinite_def)
  have s: "\<And>ax len sw ts. \<exists>pt. meanderPoint ?T ax len sw (Fin 20) ts 0 = Inr pt"
    by (simp add: meanderPoint_def stubTurf_def Let_def)
  let ?ax = "bezierSpline ?T (LineString (map (\<lambda>q. [lng q, lat q]) coincidentValley))"
  let ?ts = "Math_ceil ((lengthMeters ?T ?ax / Math_max (Fin 100) (Fin 10)) * defaultPointsPerWave)"
  from s obtain pt where
    "meanderPoint ?T ?ax (lengthMeters ?T ?ax) (Math_max (Fin 100) (Fin 10)) (Fin 20) ?ts 0 = Inr pt"
    by blast
  with C7_zero_steps [OF l z w n, of "Fin 20"]
  have "generateMeander ?T coincidentValley (Fin 20) (Fin 100) defaultPointsPerWave =
          Some (Inl tooFewPositions)"
    by simp
  with l z w n show ?thesis
    by blast
qed

text \<open>
  C8. For every input with \<open>bankfullWidth == 0\<close> (either zero), the ratio of radius
  of curvature to width is not computed: the guard yields the fallback \<open>10\<close>, which
  fails the test \<open>< 2.0\<close> exactly as \<open>+Infinity\<close> would, so the health is never
  \<open>HIGH_RISK\<close> and the whole assessment is the one a ratio of \<open>+Infinity\<close> gives.
\<close>

theorem C8_zero_width:
  assumes "isZero (bankfullWidth p)"
  shows "rcRatio m p = Fin 10 \<and> \<not> rcRatio m p < Fin 2.0 \<and>
         health (assessEcologicalHealth m p) \<noteq> HIGH_RISK \<and>
         assessEcologicalHealth m p = assessWithRatio PInf m p"
proof -
  have r: "rcRatio m p = Fin 10"
    using assms by (simp add: rcRatio_def isZero_not_pos)
  have n: "\<not> Fin 10 < Fin 2.0"
    by (simp add: less_number_def)
  have h: "health (assessWithRatio (Fin 10) m p) \<noteq> HIGH_RISK"
    using n by (simp add: health_assessWithRatio)
  have e: "assessWithRatio (Fin 10) m p = assessWithRatio PInf m p"
    using n PInf_not_lt by (rule assessWithRatio_not_tight)
  show ?thesis
    unfolding assessEcologicalHealth_def r using n h e by blast
qed

theorem C8_zero_width_witness:
  "isZero (bankfullWidth (INITIAL_PARAMS\<lparr>bankfullWidth := Fin 0\<rparr>)) \<and>
   rcRatio exampleMetrics (INITIAL_PARAMS\<lparr>bankfullWidth := Fin 0\<rparr>) = Fin 10 \<and>
   health (assessEcologicalHealth exampleMetrics (INITIAL_PARAMS\<lparr>bankfullWidth := Fin 0\<rparr>))
     \<noteq> HIGH_RISK"
proof -
  have z: "isZero (bankfullWidth (INITIAL_PARAMS\<lparr>bankfullWidth := Fin 0\<rparr>))"
    by simp
  from C8_zero_width [OF z, of exampleMetrics] z show ?thesis
    by blast
qed

text \<open>
  C9 (as amended). Whenever \<open>calculateHydraulics\<close> returns metrics for some
  parameters, the assessment of those metrics with the same parameters never
  reports the sediment regime \<open>Degradation (Scour)\<close>: the stress ratio does not
  exceed 1.2. It is the fallback 1 when \<open>originalSlope\<close> is not positive, and
  otherwise it is \<open>NaN\<close> or at most 1.
\<close>

theorem C9_never_scour:
  assumes "calculateHydraulics T p g = Inr m"
  shows "sedimentTransport (stats (assessEcologicalHealth m p)) \<noteq> ''Degradation (Scour)'' \<and>
         \<not> Fin 1.2 < stressRatio m p \<and>
         (\<not> Fin 0 < originalSlope m \<longrightarrow> stressRatio m p = Fin 1) \<and>
         (isNaN (stressRatio m p) \<or> stressRatio m p \<le> Fin 1)"
proof -
  define vl where "vl = lengthMeters T (LineString (map (\<lambda>q. [lng q, lat q]) (valleyLine p)))"
  define cl where "cl = lengthMeters T g"
  have m: "m = hydraulicsFromLengths p vl cl"
    using calc_Inr [OF assms] by (simp add: vl_def cl_def)
  have c: "\<not> Fin 0 < originalSlope m \<longrightarrow> stressRatio m p = Fin 1"
    and d: "isNaN (stressRatio m p) \<or> stressRatio m p \<le> Fin 1"
    unfolding m using stressRatio_hyd [of p vl cl] by blast+
  have a: "\<not> Fin 1.2 < stressRatio m p"
    using not_above [OF d] by simp
  then have b: "sedimentTransport (stats (assessEcologicalHealth m p)) \<noteq> ''Degradation (Scour)''"
    by (simp add: sediment_assess)
  from a b c d show ?thesis
    by blast
qed

text \<open>The witness: the initial parameters, a valley of 894 m and a path of 1200 m.\<close>

theorem C9_never_scour_witness:
  "calculateHydraulics (stubTurf examplePath (Fin 1200) (Fin 894)) INITIAL_PARAMS examplePath =
     Inr (hydraulicsFromLengths INITIAL_PARAMS (Fin 894) (Fin 1200)) \<and>
   Fin 0 < originalSlope (hydraulicsFromLengths INITIAL_PARAMS (Fin 894) (Fin 1200)) \<and>
   sedimentTransport (stats (assessEcologicalHealth
       (hydraulicsFromLengths INITIAL_PARAMS (Fin 894) (Fin 1200)) INITIAL_PARAMS))
     \<noteq> ''Degradation (Scour)'' \<and>
   \<not> Fin 1.2 < stressRatio (hydraulicsFromLengths INITIAL_PARAMS (Fin 894) (Fin 1200))
                  INITIAL_PARAMS"
proof -
  have "valleySlope INITIAL_PARAMS = Fin 2.5"
    by (simp add: INITIAL_PARAMS_def)
  from slopes_example [OF this]
  have "Fin 0 < originalSlope (hydraulicsFromLengths INITIAL_PARAMS (Fin 894) (Fin 1200))"
    by (simp add: less_number_def)
  with C9_never_scour [OF calc_example] calc_example show ?thesis
    by blast
qed

text \<open>
  The claim as stated says that the stress ratio equals \<open>newSlope / originalSlope\<close>
  and is at most 1 whenever \<open>originalSlope > 0\<close>. It fails for the initial
  parameters with a depth of 0: \<open>originalSlope\<close> is positive and
  \<open>newSlope / originalSlope\<close> is a number, but the hydraulic radius is 0 and the
  stress ratio is \<open>0 / 0 = NaN\<close>, which is not \<open><= 1\<close>.
\<close>

theorem C9_counterexample:
  "calculateHydraulics (stubTurf examplePath (Fin 1200) (Fin 894))
     (INITIAL_PARAMS\<lparr>bankfullDepth := Fin 0\<rparr>) examplePath =
   Inr (hydraulicsFromLengths (INITIAL_PARAMS\<lparr>bankfullDepth := Fin 0\<rparr>) (Fin 894) (Fin 1200)) \<and>
   Fin 0 < originalSlope
     (hydraulicsFromLengths (INITIAL_PARAMS\<lparr>bankfullDepth := Fin 0\<rparr>) (Fin 894) (Fin 1200)) \<and>
   \<not> isNaN
       (newSlope
          (hydraulicsFromLengths (INITIAL_PARAMS\<lparr>bankfullDepth := Fin 0\<rparr>) (Fin 894) (Fin 1200)) /
        originalSlope
          (hydraulicsFromLengths (INITIAL_PARAMS\<lparr>bankfullDepth := Fin 0\<rparr>) (Fin 894) (Fin 1200))) \<and>
   stressRatio
     (hydraulicsFromLengths (INITIAL_PARAMS\<lparr>bankfullDepth := Fin 0\<rparr>) (Fin 894) (Fin 1200))
     (INITIAL_PARAMS\<lparr>bankfullDepth := Fin 0\<rparr>) = NaN \<and>
   \<not> stressRatio
       (hydraulicsFromLengths (INITIAL_PARAMS\<lparr>bankfullDepth := Fin 0\<rparr>) (Fin 894) (Fin 1200))
       (INITIAL_PARAMS\<lparr>bankfullDepth := Fin 0\<rparr>) \<le> Fin 1"
proof -
  let ?p = "INITIAL_PARAMS\<lparr>bankfullDepth := Fin 0\<rparr>"
  let ?m = "hydraulicsFromLengths ?p (Fin 894) (Fin 1200)"
  have r: "calculateHydraulics (stubTurf examplePath (Fin 1200) (Fin 894)) ?p examplePath = Inr ?m"
    by (rule calc_params_example) simp
  have v: "valleySlope ?p = Fin 2.5" "bankfullWidth ?p = Fin 8" "bankfullDepth ?p = Fin 0"
    by (simp_all add: INITIAL_PARAMS_def)
  from slopes_example [OF v(1)]
  have s: "Fin 0 < originalSlope ?m" "\<not> isNaN (newSlope ?m / originalSlope ?m)"
    by (simp_all add: less_number_def eval_defs)
  have n: "stressRatio ?m ?p = NaN"
    using v by (intro zero_depth_example)
  then have "\<not> stressRatio ?m ?p \<le> Fin 1"
    by (simp add: less_eq_number_def)
  with r s n show ?thesis
    by blast
qed

text \<open>
  C10. The warnings list of an assessment has at most one entry, and it is
  non-empty exactly when the health is \<open>HIGH_RISK\<close> or \<open>DEGRADED\<close>; \<open>RECOVERING\<close>
  and \<open>STABLE\<close> come with no warning.
\<close>

theorem C10_warnings:
  "length (warnings (assessEcologicalHealth m p)) \<le> 1 \<and>
   (warnings (assessEcologicalHealth m p) \<noteq> [] \<longleftrightarrow>
      health (assessEcologicalHealth m p) = HIGH_RISK \<or>
      health (assessEcologicalHealth m p) = DEGRADED)"
  by (simp add: assessEcologicalHealth_def health_assessWithRatio warnings_assessWithRatio)


end
